theory Spec2Isabelle
  imports Main
begin

section \<open>Data model\<close>

text \<open>
  Object ids are natural numbers. An instant (a JavaScript \<open>Date\<close>, a Luxon timestamp) is
  an integer number of milliseconds since the epoch. A time zone is its offset from UTC in
  minutes: zones are taken to have a fixed offset, so a local day always has 24 hours.
  Strings are sequences of bytes, UTF-8 for what lies beyond ASCII.
\<close>

type_synonym oid = nat
type_synonym instant = int
type_synonym zone = int

text \<open>\<open>userModel\<close>: \<open>timezone\<close> is \<open>None\<close> when the field is absent or empty (falsy).\<close>

record User =
  user_id :: oid
  user_name :: string
  user_email :: string
  timezone :: "zone option"

text \<open>\<open>medModel.js\<close>: the quantities are optional numbers of the schema.\<close>

record Medication =
  med_id :: oid
  med_user :: oid
  med_name :: string
  medType :: string
  timings :: "string list"
  totalQuantity :: "int option"
  remainingQuantity :: "int option"
  isActive :: bool
  isDeleted :: bool

text \<open>\<open>logModel.js\<close>, with the \<open>createdAt\<close> stamp of \<open>timestamps: true\<close>.\<close>

record Log =
  log_user :: oid
  log_medication :: oid
  log_status :: string
  log_scheduledTime :: string
  delayMinutes :: int
  adherenceStatus :: string
  takenAt :: instant
  createdAt :: instant

section \<open>Time\<close>

definition msPerMinute :: int where
  "msPerMinute = 60000"

definition msPerDay :: int where
  "msPerDay = 86400000"

text \<open>\<open>dt.startOf('day')\<close> and \<open>dt.endOf('day')\<close> of an instant read in zone \<open>z\<close>.\<close>

definition startOfDay :: "zone \<Rightarrow> instant \<Rightarrow> instant" where
  "startOfDay z t = t - ((t + z * msPerMinute) mod msPerDay)"

definition endOfDay :: "zone \<Rightarrow> instant \<Rightarrow> instant" where
  "endOfDay z t = startOfDay z t + (msPerDay - 1)"

text \<open>The number of the local calendar day an instant falls on in zone \<open>z\<close>.\<close>

definition localDay :: "zone \<Rightarrow> instant \<Rightarrow> int" where
  "localDay z t = (t + z * msPerMinute) div msPerDay"

section \<open>Failures\<close>

text \<open>
  The calls on the store and the queue that can fail. A fault oracle says which of them
  reject; the code sees a rejected call as a thrown error.
\<close>

datatype storeOp =
    MedicationFind
  | LogFindOne oid string
  | LogCreate oid string
  | ConnectionFind oid
  | QueueAdd string
  | MedicationUpdate oid
  | EventCreate string
  | CommitTransaction

text \<open>
  The errors a function can end with: a rejected call, Luxon's invalid-argument error for a
  unit that is not a number, a schema validation failure, the two errors \<open>logDose\<close> raises
  itself, and the \<open>ReferenceError\<close> of a name that is bound nowhere.
\<close>

datatype error =
    StoreFailure storeOp
  | InvalidUnit
  | ValidationFailed
  | DuplicateDose
  | MedicationUnavailable
  | NotDefined string

section \<open>Reliability index (\<open>calculateReliabilityIndex\<close>)\<close>

text \<open>\<open>Log.find({ user, takenAt: { $gte: start, $lte: end } })\<close> for the day starting at \<open>start\<close>.\<close>

definition dailyLogs :: "Log list \<Rightarrow> oid \<Rightarrow> instant \<Rightarrow> Log list" where
  "dailyLogs logs userId start =
     filter (\<lambda>l. log_user l = userId \<and> start \<le> takenAt l \<and> takenAt l \<le> start + (msPerDay - 1)) logs"

definition hasMissed :: "Log list \<Rightarrow> bool" where
  "hasMissed ls = list_ex (\<lambda>l. log_status l = ''missed'') ls"

text \<open>
  The \<open>while (true)\<close> loop: \<open>checkingDate\<close> is the start of the day under inspection,
  \<open>dayCount\<close> the streak so far.
\<close>

function reliabilityWalk :: "Log list \<Rightarrow> oid \<Rightarrow> instant \<Rightarrow> nat \<Rightarrow> nat" where
  "reliabilityWalk logs userId checkingDate dayCount =
     (if dailyLogs logs userId checkingDate = [] then dayCount
      else if \<not> hasMissed (dailyLogs logs userId checkingDate) then
        (if dayCount + 1 \<ge> 90 then dayCount + 1
         else reliabilityWalk logs userId (checkingDate - msPerDay) (dayCount + 1))
      else dayCount)"
  by pat_completeness auto
termination
  by (relation "measure (\<lambda>(logs, userId, checkingDate, dayCount). 90 - dayCount)") auto

declare reliabilityWalk.simps [simp del]

text \<open>
  \<open>DateTime.now().startOf('day')\<close> is taken in the default zone of the server process,
  \<open>sysZone\<close>; the function has no other zone.
\<close>

definition calculateReliabilityIndex :: "zone \<Rightarrow> instant \<Rightarrow> Log list \<Rightarrow> oid \<Rightarrow> nat" where
  "calculateReliabilityIndex sysZone now logs userId =
     reliabilityWalk logs userId (startOfDay sysZone now) 0"

text \<open>Day \<open>k\<close> before today has an entry of the user and none of them is missed.\<close>

definition cleanDay :: "zone \<Rightarrow> instant \<Rightarrow> Log list \<Rightarrow> oid \<Rightarrow> nat \<Rightarrow> bool" where
  "cleanDay z now logs userId k =
     (dailyLogs logs userId (startOfDay z now - int k * msPerDay) \<noteq> [] \<and>
      \<not> hasMissed (dailyLogs logs userId (startOfDay z now - int k * msPerDay)))"

section \<open>Slot strings\<close>

text \<open>\<open>scheduledTime.split(':')\<close>.\<close>

fun splitColon :: "string \<Rightarrow> string list" where
  "splitColon [] = [[]]"
| "splitColon (c # cs) =
     (if c = CHR '':'' then [] # splitColon cs
      else (case splitColon cs of [] \<Rightarrow> [[c]] | p # ps \<Rightarrow> (c # p) # ps))"

text \<open>
  The destructuring \<open>const [hour, minute] = ...\<close>: a missing second part is \<open>undefined\<close>
  (\<open>None\<close>).
\<close>

definition hourField :: "string \<Rightarrow> string option" where
  "hourField s = (case splitColon s of [] \<Rightarrow> None | h # _ \<Rightarrow> Some h)"

definition minuteField :: "string \<Rightarrow> string option" where
  "minuteField s = (case splitColon s of _ # m # _ \<Rightarrow> Some m | _ \<Rightarrow> None)"

subsection \<open>Numbers\<close>

text \<open>
  A JavaScript number as a unit of a date: \<open>Finite n\<close> is a finite number whose integer part
  is \<open>n\<close> (\<open>Date.UTC\<close> reads a unit through \<open>ToIntegerOrInfinity\<close>, so the integer part
  is all that counts), \<open>Infinity\<close> stands for both infinities, \<open>NotANumber\<close> for \<open>NaN\<close>.
\<close>

datatype dateUnit = Finite int | Infinity | NotANumber

text \<open>The number of binary digits of a positive integer.\<close>

function bitLength :: "int \<Rightarrow> nat" where
  "bitLength n = (if n \<le> 0 then 0 else Suc (bitLength (n div 2)))"
  by pat_completeness auto
termination
  by (relation "measure nat") auto

declare bitLength.simps [simp del]

text \<open>
  The double nearest to an integer (ties to the even significand of 53 bits), \<open>None\<close> when
  it is an infinity. An integer below \<open>2 ^ 53\<close> is a double.
\<close>

definition roundDouble :: "int \<Rightarrow> int option" where
  "roundDouble n =
     (if \<bar>n\<bar> < 2 ^ 53 then Some n
      else (let e = bitLength \<bar>n\<bar> - 53;
                q = \<bar>n\<bar> div 2 ^ e;
                r = \<bar>n\<bar> mod 2 ^ e;
                q' = (if 2 ^ e < 2 * r \<or> (2 * r = 2 ^ e \<and> odd q) then q + 1 else q)
            in if 2 ^ 1024 \<le> q' * 2 ^ e then None else Some (sgn n * (q' * 2 ^ e))))"

text \<open>
  The integer part of the double nearest to the fraction \<open>m / d\<close>, for \<open>0 \<le> m\<close> and
  \<open>0 < d\<close>. Below \<open>2 ^ 52\<close> the doubles between two integers are \<open>2 ^ (k - 53)\<close> apart,
  \<open>k\<close> the bit length of the integer part, so the fraction rounds up to the next integer
  when it is within half of that of it.
\<close>

definition roundedIntegerPart :: "int \<Rightarrow> int \<Rightarrow> int option" where
  "roundedIntegerPart m d =
     (let q = m div d; r = m mod d in
      if r = 0 then roundDouble q
      else if 2 ^ 53 \<le> q then
        (let e = bitLength q - 53;
             q' = (if 2 ^ e \<le> 2 * (q mod 2 ^ e) then q div 2 ^ e + 1 else q div 2 ^ e)
         in if 2 ^ 1024 \<le> q' * 2 ^ e then None else Some (q' * 2 ^ e))
      else if 2 ^ 52 \<le> q then
        Some (if d < 2 * r \<or> (2 * r = d \<and> odd q) then q + 1 else q)
      else Some (if (d - r) * 2 ^ (54 - bitLength q) \<le> d then q + 1 else q))"

definition unitOf :: "int option \<Rightarrow> dateUnit" where
  "unitOf v = (case v of None \<Rightarrow> Infinity | Some n \<Rightarrow> Finite n)"

definition negated :: "dateUnit \<Rightarrow> dateUnit" where
  "negated v = (case v of Finite n \<Rightarrow> Finite (- n) | _ \<Rightarrow> v)"

text \<open>
  The white space and line terminators that \<open>Number\<close> and \<open>parseInt\<close> strip: tab, line
  feed, vertical tab, form feed, carriage return, space, and in UTF-8 the no-break space,
  U+1680, U+2000 to U+200A, U+2028, U+2029, U+202F, U+205F, U+3000 and U+FEFF.
\<close>

definition whiteSpace :: "string list" where
  "whiteSpace =
     [[CHR 0x09], [CHR 0x0A], [CHR 0x0B], [CHR 0x0C], [CHR 0x0D], [CHR 0x20],
      [CHR 0xC2, CHR 0xA0], [CHR 0xE1, CHR 0x9A, CHR 0x80],
      [CHR 0xE2, CHR 0x80, CHR 0x80], [CHR 0xE2, CHR 0x80, CHR 0x81], [CHR 0xE2, CHR 0x80, CHR 0x82],
      [CHR 0xE2, CHR 0x80, CHR 0x83], [CHR 0xE2, CHR 0x80, CHR 0x84], [CHR 0xE2, CHR 0x80, CHR 0x85],
      [CHR 0xE2, CHR 0x80, CHR 0x86], [CHR 0xE2, CHR 0x80, CHR 0x87], [CHR 0xE2, CHR 0x80, CHR 0x88],
      [CHR 0xE2, CHR 0x80, CHR 0x89], [CHR 0xE2, CHR 0x80, CHR 0x8A],
      [CHR 0xE2, CHR 0x80, CHR 0xA8], [CHR 0xE2, CHR 0x80, CHR 0xA9], [CHR 0xE2, CHR 0x80, CHR 0xAF],
      [CHR 0xE2, CHR 0x81, CHR 0x9F], [CHR 0xE3, CHR 0x80, CHR 0x80], [CHR 0xEF, CHR 0xBB, CHR 0xBF]]"

text \<open>Strip the leading occurrences of the sequences \<open>ws\<close>.\<close>

fun trimStart :: "string list \<Rightarrow> string \<Rightarrow> string" where
  "trimStart ws [] = []"
| "trimStart ws (c # cs) =
     (case find (\<lambda>w. w \<noteq> [] \<and> take (length w) (c # cs) = w) ws of
        None \<Rightarrow> c # cs
      | Some w \<Rightarrow> trimStart ws (drop (length w - 1) cs))"

definition trim :: "string \<Rightarrow> string" where
  "trim s = rev (trimStart (map rev whiteSpace) (rev (trimStart whiteSpace s)))"

text \<open>The value of a character as a digit of the radix, \<open>None\<close> when it is none.\<close>

definition digitOf :: "nat \<Rightarrow> char \<Rightarrow> nat option" where
  "digitOf radix c =
     (let n = (of_char c :: nat);
          v = (if 48 \<le> n \<and> n \<le> 57 then Some (n - 48)
               else if 97 \<le> n \<and> n \<le> 122 then Some (n - 87)
               else if 65 \<le> n \<and> n \<le> 90 then Some (n - 55)
               else None)
      in case v of None \<Rightarrow> None | Some d \<Rightarrow> if d < radix then Some d else None)"

definition isDigit :: "nat \<Rightarrow> char \<Rightarrow> bool" where
  "isDigit radix c = (digitOf radix c \<noteq> None)"

definition digitsValue :: "nat \<Rightarrow> string \<Rightarrow> int" where
  "digitsValue radix s = foldl (\<lambda>a c. int radix * a + int (the (digitOf radix c))) 0 s"

text \<open>
  The exponent part of a decimal literal, to the end of the string: \<open>e\<close> or \<open>E\<close>, an
  optional sign and digits. \<open>None\<close> when what is left is something else.
\<close>

definition exponentPart :: "string \<Rightarrow> int option" where
  "exponentPart r =
     (case r of
        [] \<Rightarrow> Some 0
      | c # cs \<Rightarrow>
          if c = CHR ''e'' \<or> c = CHR ''E'' then
            (let ds = (case cs of [] \<Rightarrow> [] | d # ds' \<Rightarrow> if d = CHR ''+'' \<or> d = CHR ''-'' then ds' else cs)
             in if ds \<noteq> [] \<and> list_all (isDigit 10) ds
                then Some (if take 1 cs = ''-'' then - digitsValue 10 ds else digitsValue 10 ds)
                else None)
          else None)"

text \<open>The number \<open>m * 10 ^ x\<close> as a double, for \<open>0 \<le> m\<close>.\<close>

definition decimalValue :: "int \<Rightarrow> int \<Rightarrow> dateUnit" where
  "decimalValue m x =
     unitOf (if 0 \<le> x then roundDouble (m * 10 ^ nat x) else roundedIntegerPart m (10 ^ nat (- x)))"

text \<open>
  An unsigned decimal literal: \<open>Infinity\<close>, or digits with an optional fraction and an
  optional exponent, with a digit before or after the point.
\<close>

definition unsignedDecimal :: "string \<Rightarrow> dateUnit" where
  "unsignedDecimal t =
     (if t = ''Infinity'' then Infinity
      else (let ip = takeWhile (isDigit 10) t;
                r = dropWhile (isDigit 10) t;
                fp = (case r of [] \<Rightarrow> [] | c # cs \<Rightarrow> if c = CHR ''.'' then takeWhile (isDigit 10) cs else []);
                r' = (case r of [] \<Rightarrow> [] | c # cs \<Rightarrow> if c = CHR ''.'' then dropWhile (isDigit 10) cs else r)
            in if ip = [] \<and> fp = [] then NotANumber
               else (case exponentPart r' of
                       None \<Rightarrow> NotANumber
                     | Some x \<Rightarrow> decimalValue (digitsValue 10 (ip @ fp)) (x - int (length fp)))))"

text \<open>The digits of a hexadecimal, octal or binary literal, after its prefix.\<close>

definition radixLiteral :: "nat \<Rightarrow> string \<Rightarrow> dateUnit" where
  "radixLiteral radix ds =
     (if ds \<noteq> [] \<and> list_all (isDigit radix) ds then unitOf (roundDouble (digitsValue radix ds))
      else NotANumber)"

text \<open>
  \<open>Number(s)\<close> of a string: white space is stripped at both ends; the empty string is 0; a
  literal with the prefix \<open>0x\<close>, \<open>0o\<close> or \<open>0b\<close> takes no sign; anything that is not a
  numeric literal to its end is \<open>NaN\<close>.
\<close>

definition stringToNumber :: "string \<Rightarrow> dateUnit" where
  "stringToNumber s =
     (case trim s of
        [] \<Rightarrow> Finite 0
      | c # cs \<Rightarrow>
          if c = CHR ''0'' \<and> take 1 cs \<in> {''x'', ''X''} then radixLiteral 16 (drop 1 cs)
          else if c = CHR ''0'' \<and> take 1 cs \<in> {''o'', ''O''} then radixLiteral 8 (drop 1 cs)
          else if c = CHR ''0'' \<and> take 1 cs \<in> {''b'', ''B''} then radixLiteral 2 (drop 1 cs)
          else if c = CHR ''+'' then unsignedDecimal cs
          else if c = CHR ''-'' then negated (unsignedDecimal cs)
          else unsignedDecimal (c # cs))"

text \<open>\<open>Number(x)\<close> on a field of a slot: \<open>Number(undefined)\<close> is \<open>NaN\<close>.\<close>

definition jsNumber :: "string option \<Rightarrow> dateUnit" where
  "jsNumber v = (case v of None \<Rightarrow> NotANumber | Some s \<Rightarrow> stringToNumber s)"

text \<open>
  \<open>parseInt(x)\<close> on a field of a slot: leading white space is stripped, then a sign, then
  the prefix \<open>0x\<close>, which makes the radix 16; the digits that follow are read up to the
  first other character; no digit is \<open>NaN\<close>, and so is \<open>undefined\<close>.
\<close>

definition jsParseInt :: "string option \<Rightarrow> dateUnit" where
  "jsParseInt v =
     (case v of
        None \<Rightarrow> NotANumber
      | Some s \<Rightarrow>
          (let t = trimStart whiteSpace s;
               t1 = (if take 1 t \<in> {''+'', ''-''} then drop 1 t else t);
               radix = (if take 2 t1 \<in> {''0x'', ''0X''} then 16 else 10);
               z = takeWhile (isDigit radix) (if radix = 16 then drop 2 t1 else t1)
           in if z = [] then NotANumber
              else unitOf (roundDouble ((if take 1 t = ''-'' then - 1 else 1) * digitsValue radix z))))"

subsection \<open>Date-times\<close>

text \<open>
  A Luxon \<open>DateTime\<close> in a given zone: valid, with its instant, or invalid. The time value
  of a \<open>Date\<close> lies within \<open>maxTime\<close> of the epoch.
\<close>

datatype dateTime = Valid instant | Invalid

definition maxTime :: int where
  "maxTime = 8640000000000000"

text \<open>
  \<open>MakeTime(h, m, 0, ms)\<close> of \<open>Date.UTC\<close>: the milliseconds of a time of day, in double
  arithmetic; \<open>None\<close> when a step is not finite.
\<close>

definition makeTime :: "int \<Rightarrow> int \<Rightarrow> int \<Rightarrow> int option" where
  "makeTime h m ms =
     (case roundDouble (h * 3600000) of
        None \<Rightarrow> None
      | Some a \<Rightarrow>
          (case roundDouble (m * 60000) of
             None \<Rightarrow> None
           | Some b \<Rightarrow> (case roundDouble (a + b) of None \<Rightarrow> None | Some c \<Rightarrow> roundDouble (c + ms))))"

text \<open>
  Luxon's \<open>dt.set({ hour, minute, second: 0, millisecond: ms })\<close> for a valid \<open>dt\<close> in zone
  \<open>z\<close>. A unit that is \<open>NaN\<close> raises the invalid-argument error. Otherwise \<open>Date.UTC\<close>
  builds the local time on the local date of \<open>dt\<close>: a unit beyond its range carries over
  (hour 24 is the next day, hour -1 the day before); the result is invalid when a unit is
  infinite or the time value leaves the range of a \<open>Date\<close>. The argument \<open>ms\<close> is the
  millisecond part, which \<open>logDose\<close> leaves as it is in \<open>dt\<close>.

  An infinite unit is taken to reach \<open>Date.UTC\<close>, as every number but \<open>NaN\<close> does.
  Should Luxon reject it as it rejects \<open>NaN\<close>, a pass ends at such a slot instead, with
  the entries written until then.
\<close>

definition luxonSet :: "zone \<Rightarrow> instant \<Rightarrow> int \<Rightarrow> dateUnit \<Rightarrow> dateUnit \<Rightarrow> error + dateTime" where
  "luxonSet z dt ms hour minute =
     (if hour = NotANumber \<or> minute = NotANumber then Inl InvalidUnit
      else Inr (case (hour, minute) of
                  (Finite h, Finite m) \<Rightarrow>
                    (case makeTime h m ms of
                       None \<Rightarrow> Invalid
                     | Some t \<Rightarrow>
                         (case roundDouble (startOfDay z dt + z * msPerMinute + t) of
                            None \<Rightarrow> Invalid
                          | Some l \<Rightarrow> if \<bar>l\<bar> \<le> maxTime then Valid (l - z * msPerMinute) else Invalid))
                | _ \<Rightarrow> Invalid))"

text \<open>\<open>d.plus({ hours: n })\<close>: an invalid date-time stays invalid, and a sum beyond the range is invalid.\<close>

definition plusHours :: "zone \<Rightarrow> int \<Rightarrow> dateTime \<Rightarrow> dateTime" where
  "plusHours z n d =
     (case d of
        Invalid \<Rightarrow> Invalid
      | Valid t \<Rightarrow> if \<bar>t + n * 3600000 + z * msPerMinute\<bar> \<le> maxTime then Valid (t + n * 3600000) else Invalid)"

text \<open>
  \<open>now <= d\<close> for the instant \<open>now\<close>: the value of an invalid date-time is \<open>NaN\<close>, and a
  comparison with \<open>NaN\<close> is false.
\<close>

definition notAfter :: "instant \<Rightarrow> dateTime \<Rightarrow> bool" where
  "notAfter now d = (case d of Invalid \<Rightarrow> False | Valid t \<Rightarrow> now \<le> t)"

text \<open>
  A clock reading with two days to spare within the range of a \<open>Date\<close> in zone \<open>z\<close>, as
  every reading of a real clock is.
\<close>

definition clockInRange :: "zone \<Rightarrow> instant \<Rightarrow> bool" where
  "clockInRange z now = (\<bar>now + z * msPerMinute\<bar> + 2 * msPerDay \<le> maxTime)"

section \<open>The store\<close>

record Connection =
  patientId :: oid
  guardianId :: oid
  conn_status :: string

text \<open>A \<open>guardian-alert\<close> job of the queue.\<close>

record AlertJob =
  guardianEmail :: string
  patientName :: string
  medName :: string
  missedTime :: string

datatype metadata = DoseMeta string int | StockMeta int | SlotMeta string

record Event =
  ev_user :: oid
  ev_medication :: oid
  eventType :: string
  ev_metadata :: metadata
  ev_timestamp :: instant

record Store =
  users :: "User list"
  medications :: "Medication list"
  logs :: "Log list"
  events :: "Event list"
  connections :: "Connection list"
  alertQueue :: "AlertJob list"

text \<open>\<open>x.timezone || 'UTC'\<close>.\<close>

definition userZone :: "User \<Rightarrow> zone" where
  "userZone u = (case timezone u of None \<Rightarrow> 0 | Some z \<Rightarrow> z)"

text \<open>\<open>.populate('user')\<close>: the referenced user, \<open>None\<close> when there is none.\<close>

definition populateUser :: "User list \<Rightarrow> oid \<Rightarrow> User option" where
  "populateUser us uid = find (\<lambda>u. user_id u = uid) us"

section \<open>Inventory runway (\<open>getInventoryRunway\<close>)\<close>

text \<open>
  A JavaScript number as far as the runway needs it: an integer or \<open>NaN\<close>. A comparison
  with \<open>NaN\<close> is false.
\<close>

datatype jsnum = Num int | NaN

definition jsLe :: "jsnum \<Rightarrow> int \<Rightarrow> bool" where
  "jsLe x k = (case x of Num n \<Rightarrow> n \<le> k | NaN \<Rightarrow> False)"

text \<open>\<open>Math.floor(x / d)\<close> for a positive count \<open>d\<close>; \<open>undefined / d\<close> is \<open>NaN\<close>.\<close>

definition floorDiv :: "int option \<Rightarrow> nat \<Rightarrow> jsnum" where
  "floorDiv x d = (case x of None \<Rightarrow> NaN | Some n \<Rightarrow> Num (n div int d))"

record InventoryReport =
  medicationId :: oid
  rep_name :: string
  currentStock :: "int option"
  daysRemaining :: jsnum
  rep_status :: string

text \<open>
  \<open>med.currentInventory\<close>. The schema of \<open>medModel.js\<close> declares no such path (the stock is
  \<open>remainingQuantity\<close>), so the read yields \<open>undefined\<close> on every document.
\<close>

definition currentInventory :: "Medication \<Rightarrow> int option" where
  "currentInventory med = None"

text \<open>The body of the \<open>meds.map\<close> callback.\<close>

definition inventoryReport :: "Medication \<Rightarrow> InventoryReport" where
  "inventoryReport med =
     (let dailyDoses = length (timings med);
          days = (if dailyDoses > 0 then floorDiv (currentInventory med) dailyDoses else Num 0)
      in \<lparr> medicationId = med_id med,
           rep_name = med_name med,
           currentStock = currentInventory med,
           daysRemaining = days,
           rep_status = (if jsLe days 3 then ''Critical''
                         else if jsLe days 7 then ''Low'' else ''Healthy'') \<rparr>)"

text \<open>
  The body of the function as it would run were \<open>Medication\<close> bound to the model of
  \<open>medModel.js\<close>: the query and the map.
\<close>

definition inventoryReports :: "oid \<Rightarrow> Medication list \<Rightarrow> InventoryReport list" where
  "inventoryReports userId meds =
     map inventoryReport
       (filter (\<lambda>med. med_user med = userId \<and> \<not> isDeleted med \<and> isActive med) meds)"

text \<open>
  The names the analytics module imports. \<open>Medication\<close> is not among them and the module
  declares no such name, so the first statement of \<open>getInventoryRunway\<close> throws a
  \<open>ReferenceError\<close> on every call.
\<close>

definition analyticsImports :: "string list" where
  "analyticsImports = [''Log'', ''DateTime'', ''mongoose'']"

definition getInventoryRunway :: "oid \<Rightarrow> Medication list \<Rightarrow> error + InventoryReport list" where
  "getInventoryRunway userId meds =
     (if ''Medication'' \<in> set analyticsImports then Inr (inventoryReports userId meds)
      else Inl (NotDefined ''Medication''))"

section \<open>The sweeper (\<open>runAutomatedReaper\<close>)\<close>

text \<open>
  One clock reading \<open>now\<close> stands for every \<open>DateTime.now()\<close> and every \<open>createdAt\<close> stamp
  of a pass. The socket emits touch nothing of the store and are left out.
\<close>

definition twoHours :: int where
  "twoHours = 2 * 60 * msPerMinute"

text \<open>
  \<open>now.set({ hour: Number(hour), minute: Number(minute), second: 0, millisecond: 0 })\<close> for
  the two fields of the slot.
\<close>

definition scheduledDateTime :: "zone \<Rightarrow> instant \<Rightarrow> string \<Rightarrow> error + dateTime" where
  "scheduledDateTime z now scheduledTime =
     luxonSet z now 0 (jsNumber (hourField scheduledTime)) (jsNumber (minuteField scheduledTime))"

text \<open>The \<open>Log.findOne\<close> of the pass: an entry of the medication and slot created today.\<close>

definition existingLog :: "Log list \<Rightarrow> oid \<Rightarrow> string \<Rightarrow> instant \<Rightarrow> instant \<Rightarrow> Log option" where
  "existingLog ls mid scheduledTime startOfToday endOfToday =
     find (\<lambda>l. log_medication l = mid \<and> log_scheduledTime l = scheduledTime \<and>
               startOfToday \<le> createdAt l \<and> createdAt l \<le> endOfToday) ls"

definition missedLog :: "instant \<Rightarrow> User \<Rightarrow> Medication \<Rightarrow> string \<Rightarrow> Log" where
  "missedLog now u med scheduledTime =
     \<lparr> log_user = user_id u, log_medication = med_id med, log_status = ''missed'',
       log_scheduledTime = scheduledTime, delayMinutes = 0, adherenceStatus = ''missed'',
       takenAt = now, createdAt = now \<rparr>"

text \<open>The loop over the active connections of the patient: one queued job per guardian with an email.\<close>

fun queueAlerts ::
  "(storeOp \<Rightarrow> bool) \<Rightarrow> User list \<Rightarrow> User \<Rightarrow> Medication \<Rightarrow> string \<Rightarrow> Connection list \<Rightarrow> AlertJob list
     \<Rightarrow> AlertJob list \<times> error option" where
  "queueAlerts flt us u med scheduledTime [] q = (q, None)"
| "queueAlerts flt us u med scheduledTime (conn # conns) q =
     (case populateUser us (guardianId conn) of
        None \<Rightarrow> queueAlerts flt us u med scheduledTime conns q
      | Some g \<Rightarrow>
          if user_email g = [] then queueAlerts flt us u med scheduledTime conns q
          else if flt (QueueAdd (user_email g)) then (q, Some (StoreFailure (QueueAdd (user_email g))))
          else queueAlerts flt us u med scheduledTime conns
                 (q @ [\<lparr> guardianEmail = user_email g,
                          patientName = (if user_name u = [] then ''Your Patient'' else user_name u),
                          medName = med_name med,
                          missedTime = scheduledTime \<rparr>]))"

text \<open>
  The body of the loop over \<open>med.timings\<close>; the number returned is what it adds to
  \<open>missedCount\<close>. The test \<open>now <= missedThreshold\<close> is false, and the body goes on, also
  when the threshold is an invalid date-time.
\<close>

definition reapSlot ::
  "(storeOp \<Rightarrow> bool) \<Rightarrow> instant \<Rightarrow> User \<Rightarrow> Medication \<Rightarrow> string \<Rightarrow> Store \<Rightarrow> Store \<times> (error + nat)" where
  "reapSlot flt now u med scheduledTime st =
     (case scheduledDateTime (userZone u) now scheduledTime of
        Inl e \<Rightarrow> (st, Inl e)
      | Inr slotDateTime \<Rightarrow>
          if notAfter now (plusHours (userZone u) 2 slotDateTime) then (st, Inr 0)
          else if flt (LogFindOne (med_id med) scheduledTime)
            then (st, Inl (StoreFailure (LogFindOne (med_id med) scheduledTime)))
          else (case existingLog (logs st) (med_id med) scheduledTime
                       (startOfDay (userZone u) now) (endOfDay (userZone u) now) of
                  Some l \<Rightarrow> (st, Inr 0)
                | None \<Rightarrow>
                    if flt (LogCreate (med_id med) scheduledTime)
                      then (st, Inl (StoreFailure (LogCreate (med_id med) scheduledTime)))
                    else if flt (ConnectionFind (user_id u))
                      then (st\<lparr>logs := logs st @ [missedLog now u med scheduledTime]\<rparr>,
                            Inl (StoreFailure (ConnectionFind (user_id u))))
                    else (case queueAlerts flt (users st) u med scheduledTime
                                 (filter (\<lambda>c. patientId c = user_id u \<and> conn_status c = ''active'')
                                    (connections st))
                                 (alertQueue st) of
                            (q, Some e) \<Rightarrow>
                              (st\<lparr>logs := logs st @ [missedLog now u med scheduledTime], alertQueue := q\<rparr>, Inl e)
                          | (q, None) \<Rightarrow>
                              (st\<lparr>logs := logs st @ [missedLog now u med scheduledTime], alertQueue := q\<rparr>, Inr 1))))"

fun reapSlots ::
  "(storeOp \<Rightarrow> bool) \<Rightarrow> instant \<Rightarrow> User \<Rightarrow> Medication \<Rightarrow> string list \<Rightarrow> nat \<Rightarrow> Store \<Rightarrow> Store \<times> (error + nat)" where
  "reapSlots flt now u med [] missedCount st = (st, Inr missedCount)"
| "reapSlots flt now u med (scheduledTime # rest) missedCount st =
     (case reapSlot flt now u med scheduledTime st of
        (st1, Inl e) \<Rightarrow> (st1, Inl e)
      | (st1, Inr k) \<Rightarrow> reapSlots flt now u med rest (missedCount + k) st1)"

text \<open>The loop over \<open>meds\<close>: a medication whose user did not populate is passed over.\<close>

fun reapMeds ::
  "(storeOp \<Rightarrow> bool) \<Rightarrow> instant \<Rightarrow> Medication list \<Rightarrow> nat \<Rightarrow> Store \<Rightarrow> Store \<times> (error + nat)" where
  "reapMeds flt now [] missedCount st = (st, Inr missedCount)"
| "reapMeds flt now (med # meds) missedCount st =
     (case populateUser (users st) (med_user med) of
        None \<Rightarrow> reapMeds flt now meds missedCount st
      | Some u \<Rightarrow>
          (case reapSlots flt now u med (timings med) missedCount st of
             (st1, Inl e) \<Rightarrow> (st1, Inl e)
           | (st1, Inr c) \<Rightarrow> reapMeds flt now meds c st1))"

text \<open>The medications the pass enumerates: \<open>Medication.find({ isDeleted: false, medType: 'scheduled' })\<close>.\<close>

definition sweptMeds :: "Store \<Rightarrow> Medication list" where
  "sweptMeds st = filter (\<lambda>m. \<not> isDeleted m \<and> medType m = ''scheduled'') (medications st)"

text \<open>
  The pass. Its single \<open>catch\<close> logs and rethrows: the result is the store as the pass left
  it and either the error thrown (\<open>Inl\<close>) or the count returned (\<open>Inr\<close>).
\<close>

definition runAutomatedReaper :: "(storeOp \<Rightarrow> bool) \<Rightarrow> instant \<Rightarrow> Store \<Rightarrow> Store \<times> (error + nat)" where
  "runAutomatedReaper flt now st =
     (if flt MedicationFind then (st, Inl (StoreFailure MedicationFind))
      else reapMeds flt now (sweptMeds st) 0 st)"

definition noFaults :: "storeOp \<Rightarrow> bool" where
  "noFaults op = False"

text \<open>
  The passes the scheduler starts one after another (the hourly \<open>run-reaper\<close> job, the manual
  trigger), each with the failures it meets and its clock reading. A pass that throws leaves
  the store as it then is.
\<close>

fun runPasses :: "((storeOp \<Rightarrow> bool) \<times> instant) list \<Rightarrow> Store \<Rightarrow> Store" where
  "runPasses [] st = st"
| "runPasses ((flt, now) # passes) st = runPasses passes (fst (runAutomatedReaper flt now st))"

text \<open>
  The key of an entry for the at-most-one rule: its medication, its slot, and the local day of
  its creation in the zone of the medication's owner.
\<close>

definition ownerZone :: "Store \<Rightarrow> oid \<Rightarrow> zone" where
  "ownerZone st mid =
     (case find (\<lambda>m. med_id m = mid) (medications st) of
        None \<Rightarrow> 0
      | Some m \<Rightarrow> (case populateUser (users st) (med_user m) of None \<Rightarrow> 0 | Some u \<Rightarrow> userZone u))"

definition slotKey :: "Store \<Rightarrow> Log \<Rightarrow> oid \<times> string \<times> int" where
  "slotKey st l =
     (log_medication l, log_scheduledTime l, localDay (ownerZone st (log_medication l)) (createdAt l))"

text \<open>
  A slot is overdue at \<open>now\<close> in zone \<open>z\<close>: its date-time is built without an error and the
  test \<open>now <= missedThreshold\<close> of the pass is false. For a slot that reads as a time of day
  that is: \<open>now\<close> is past today's instance plus two hours.
\<close>

definition overdue :: "zone \<Rightarrow> instant \<Rightarrow> string \<Rightarrow> bool" where
  "overdue z now scheduledTime =
     (case scheduledDateTime z now scheduledTime of
        Inl e \<Rightarrow> False
      | Inr slotDateTime \<Rightarrow> \<not> notAfter now (plusHours z 2 slotDateTime))"

text \<open>
  A slot is settled in a ledger at \<open>now\<close>: its date-time is built without an error, and if it
  is overdue the ledger holds an entry of the medication and slot created today.
\<close>

definition settled :: "zone \<Rightarrow> instant \<Rightarrow> Log list \<Rightarrow> oid \<Rightarrow> string \<Rightarrow> bool" where
  "settled z now ls mid scheduledTime =
     ((\<exists>d. scheduledDateTime z now scheduledTime = Inr d) \<and>
      (overdue z now scheduledTime \<longrightarrow>
         existingLog ls mid scheduledTime (startOfDay z now) (endOfDay z now) \<noteq> None))"


section \<open>The recorder (\<open>logDose\<close>) and \<open>refillMedication\<close>\<close>

text \<open>
  The request: the authenticated user and the body. A field the body lacks and the empty
  string are both falsy and take the same branches; both are written as the empty string.
\<close>

record DoseRequest =
  req_user :: User
  req_medId :: oid
  req_scheduledTime :: string
  req_status :: string

datatype response = Created Log | BadRequest error

text \<open>\<open>findOneAndUpdate\<close>: the first document that matches is updated and returned as updated.\<close>

fun findOneAndUpdate :: "('a \<Rightarrow> bool) \<Rightarrow> ('a \<Rightarrow> 'a) \<Rightarrow> 'a list \<Rightarrow> ('a \<times> 'a list) option" where
  "findOneAndUpdate p f [] = None"
| "findOneAndUpdate p f (x # xs) =
     (if p x then Some (f x, f x # xs)
      else (case findOneAndUpdate p f xs of None \<Rightarrow> None | Some (y, ys) \<Rightarrow> Some (y, x # ys)))"

text \<open>\<open>$inc\<close> on an optional number: an absent field counts from 0.\<close>

definition inc :: "int \<Rightarrow> int option \<Rightarrow> int option" where
  "inc k q = Some ((case q of None \<Rightarrow> 0 | Some n \<Rightarrow> n) + k)"

text \<open>
  \<open>recordEvent\<close>: the insert joins the session; its \<open>catch\<close> logs a failure and does not
  rethrow, so the caller goes on. Whether the store still commits a transaction in which an
  insert was rejected is the store's matter: the oracle's answer for the commit stands for it.
\<close>

definition recordEvent ::
  "(storeOp \<Rightarrow> bool) \<Rightarrow> instant \<Rightarrow> oid \<Rightarrow> oid \<Rightarrow> string \<Rightarrow> metadata \<Rightarrow> Store \<Rightarrow> Store" where
  "recordEvent flt now userId medId type meta st =
     (if flt (EventCreate type) then st
      else st\<lparr>events := events st @
             [\<lparr> ev_user = userId, ev_medication = medId, eventType = type,
                ev_metadata = meta, ev_timestamp = now \<rparr>]\<rparr>)"

text \<open>
  The lateness classification: \<open>(adherenceStatus, delayMinutes)\<close>, or the error \<open>set\<close> raises.
  The difference to an invalid date-time is \<open>NaN\<close>, which is not above 30.
\<close>

definition classify :: "zone \<Rightarrow> instant \<Rightarrow> string \<Rightarrow> string \<Rightarrow> error + (string \<times> int)" where
  "classify z now scheduledTime status =
     (if scheduledTime \<noteq> [] \<and> status \<noteq> ''missed'' then
        (case luxonSet z now ((now + z * msPerMinute) mod 1000)
                (jsParseInt (hourField scheduledTime)) (jsParseInt (minuteField scheduledTime)) of
           Inl e \<Rightarrow> Inl e
         | Inr Invalid \<Rightarrow> Inr (''on-time'', 0)
         | Inr (Valid scheduled) \<Rightarrow>
             if now - scheduled > 30 * msPerMinute
               then Inr (''late'', (now - scheduled) div msPerMinute)
             else Inr (''on-time'', 0))
      else Inr (''on-time'', 0))"

text \<open>The schema's validation of the new entry: the status enum and the required slot.\<close>

definition validLog :: "Log \<Rightarrow> bool" where
  "validLog l = (log_status l \<in> {''taken'', ''missed'', ''skipped''} \<and> log_scheduledTime l \<noteq> [])"

text \<open>The side effects after the ledger write, on the session's view of the store.\<close>

definition doseEffects ::
  "(storeOp \<Rightarrow> bool) \<Rightarrow> instant \<Rightarrow> DoseRequest \<Rightarrow> string \<Rightarrow> int \<Rightarrow> Store \<Rightarrow> error + Store" where
  "doseEffects flt now req adherence delay st =
     (if req_status req = ''taken'' \<or> req_status req = [] then
        (if flt (MedicationUpdate (req_medId req)) then Inl (StoreFailure (MedicationUpdate (req_medId req)))
         else (case findOneAndUpdate
                      (\<lambda>m. med_id m = req_medId req \<and> med_user m = user_id (req_user req) \<and> \<not> isDeleted m)
                      (\<lambda>m. m\<lparr>remainingQuantity := inc (- 1) (remainingQuantity m)\<rparr>)
                      (medications st) of
                 None \<Rightarrow> Inl MedicationUnavailable
               | Some (medication, meds) \<Rightarrow>
                   (let st1 = recordEvent flt now (user_id (req_user req)) (req_medId req)
                                (if adherence = ''late'' then ''DOSE_LATE'' else ''DOSE_TAKEN'')
                                (DoseMeta (req_scheduledTime req) delay)
                                (st\<lparr>medications := meds\<rparr>)
                    in (case remainingQuantity medication of
                          None \<Rightarrow> Inr st1
                        | Some stock \<Rightarrow>
                            if stock < 5
                              then Inr (recordEvent flt now (user_id (req_user req)) (req_medId req)
                                          ''INVENTORY_LOW'' (StockMeta stock) st1)
                            else Inr st1))))
      else if req_status req = ''missed'' then
        Inr (recordEvent flt now (user_id (req_user req)) (req_medId req)
               ''DOSE_MISSED'' (SlotMeta (req_scheduledTime req)) st)
      else Inr st)"

text \<open>
  \<open>logDose\<close>. The session is a working copy of the store: a commit makes it the store, an
  abort leaves the store as it was. One clock reading \<open>now\<close> stands for both
  \<open>DateTime.now()\<close> calls.
\<close>

definition newLog :: "instant \<Rightarrow> DoseRequest \<Rightarrow> string \<Rightarrow> int \<Rightarrow> Log" where
  "newLog now req adherence delay =
     \<lparr> log_user = user_id (req_user req), log_medication = req_medId req,
       log_status = (if req_status req = [] then ''taken'' else req_status req),
       log_scheduledTime = req_scheduledTime req,
       delayMinutes = delay,
       adherenceStatus = (if req_status req = ''missed'' then ''missed'' else adherence),
       takenAt = now, createdAt = now \<rparr>"

definition duplicateLog :: "Log list \<Rightarrow> oid \<Rightarrow> oid \<Rightarrow> string \<Rightarrow> instant \<Rightarrow> Log option" where
  "duplicateLog ls userId medId scheduledTime tenMinutesAgo =
     find (\<lambda>l. log_user l = userId \<and> log_medication l = medId \<and> log_scheduledTime l = scheduledTime \<and>
               tenMinutesAgo \<le> takenAt l \<and> log_status l = ''taken'') ls"

definition logDose :: "(storeOp \<Rightarrow> bool) \<Rightarrow> instant \<Rightarrow> DoseRequest \<Rightarrow> Store \<Rightarrow> Store \<times> response" where
  "logDose flt now req st =
     (if flt (LogFindOne (req_medId req) (req_scheduledTime req))
        then (st, BadRequest (StoreFailure (LogFindOne (req_medId req) (req_scheduledTime req))))
      else if duplicateLog (logs st) (user_id (req_user req)) (req_medId req) (req_scheduledTime req)
                (now - 10 * msPerMinute) \<noteq> None \<and>
              (req_status req = ''taken'' \<or> req_status req = [])
        then (st, BadRequest DuplicateDose)
      else (case classify (userZone (req_user req)) now (req_scheduledTime req) (req_status req) of
              Inl e \<Rightarrow> (st, BadRequest e)
            | Inr (adherence, delay) \<Rightarrow>
                if \<not> validLog (newLog now req adherence delay) then (st, BadRequest ValidationFailed)
                else if flt (LogCreate (req_medId req) (req_scheduledTime req))
                  then (st, BadRequest (StoreFailure (LogCreate (req_medId req) (req_scheduledTime req))))
                else (case doseEffects flt now req adherence delay
                             (st\<lparr>logs := logs st @ [newLog now req adherence delay]\<rparr>) of
                        Inl e \<Rightarrow> (st, BadRequest e)
                      | Inr st1 \<Rightarrow>
                          if flt CommitTransaction then (st, BadRequest (StoreFailure CommitTransaction))
                          else (st1, Created (newLog now req adherence delay)))))"

text \<open>The oracle that rejects what \<open>flt\<close> rejects, audit inserts apart: those it accepts.\<close>

definition auditAccepted :: "(storeOp \<Rightarrow> bool) \<Rightarrow> storeOp \<Rightarrow> bool" where
  "auditAccepted flt op = (case op of EventCreate t \<Rightarrow> False | _ \<Rightarrow> flt op)"

text \<open>\<open>refillMedication\<close>: \<open>None\<close> is the 404 reply.\<close>

definition refillMedication :: "oid \<Rightarrow> oid \<Rightarrow> int \<Rightarrow> Store \<Rightarrow> Store \<times> Medication option" where
  "refillMedication userId medId refillAmount st =
     (case findOneAndUpdate
             (\<lambda>m. med_id m = medId \<and> med_user m = userId \<and> \<not> isDeleted m)
             (\<lambda>m. m\<lparr>totalQuantity := inc refillAmount (totalQuantity m),
                     remainingQuantity := inc refillAmount (remainingQuantity m)\<rparr>)
             (medications st) of
        None \<Rightarrow> (st, None)
      | Some (updatedMed, meds) \<Rightarrow> (st\<lparr>medications := meds\<rparr>, Some updatedMed))"

section \<open>Example data\<close>

definition mkLog :: "oid \<Rightarrow> oid \<Rightarrow> string \<Rightarrow> string \<Rightarrow> instant \<Rightarrow> Log" where
  "mkLog u m st slot t =
     \<lparr> log_user = u, log_medication = m, log_status = st, log_scheduledTime = slot,
       delayMinutes = 0, adherenceStatus = (if st = ''missed'' then ''missed'' else ''on-time''),
       takenAt = t, createdAt = t \<rparr>"

text \<open>A medication of user 7 with three daily slots and ten doses left.\<close>

definition exMed :: Medication where
  "exMed = \<lparr> med_id = 1, med_user = 7, med_name = ''Aspirin'', medType = ''scheduled'',
      timings = [''08:00'', ''14:00'', ''20:00''], totalQuantity = Some 30,
      remainingQuantity = Some 10, isActive = True, isDeleted = False \<rparr>"

text \<open>
  Instant 907200000 is 12:00 UTC on day 10. \<open>streakLogs\<close>: entries at 08:00 UTC on days 10, 9
  and 8. \<open>earlyLogs\<close>: entries at 19:00 UTC on days 9, 8 and 7, which is 00:30 on days 10, 9
  and 8 in a zone 330 minutes ahead of UTC.
\<close>

definition streakLogs :: "Log list" where
  "streakLogs = [mkLog 7 1 ''taken'' ''08:00'' 892800000, mkLog 7 1 ''taken'' ''08:00'' 806400000,
                 mkLog 7 1 ''skipped'' ''08:00'' 720000000]"

definition earlyLogs :: "Log list" where
  "earlyLogs = [mkLog 7 1 ''taken'' ''00:30'' 846000000, mkLog 7 1 ''taken'' ''00:30'' 759600000,
                mkLog 7 1 ''taken'' ''00:30'' 673200000]"

text \<open>
  A store with the patient 7, who lives 330 minutes ahead of UTC, her guardian 9, the
  medication \<open>exMed\<close> and no entries. At instant 907200000 it is 17:30 on day 10 for the
  patient: her slots 08:00 and 14:00 are more than two hours past, 20:00 is not.
\<close>

definition exStore :: Store where
  "exStore = \<lparr> users = [\<lparr> user_id = 7, user_name = ''Asha'', user_email = ''asha@example.org'',
                           timezone = Some 330 \<rparr>,
                         \<lparr> user_id = 9, user_name = ''Ravi'', user_email = ''ravi@example.org'',
                           timezone = None \<rparr>],
               medications = [exMed],
               logs = [],
               events = [],
               connections = [\<lparr> patientId = 7, guardianId = 9, conn_status = ''active'' \<rparr>],
               alertQueue = [] \<rparr>"

text \<open>
  A second medication of the patient, out of stock, with the slot 09:00; a soft-deleted third
  one; and stores that hold them.
\<close>

definition exMed2 :: Medication where
  "exMed2 = \<lparr> med_id = 2, med_user = 7, med_name = ''Metformin'', medType = ''scheduled'',
      timings = [''09:00''], totalQuantity = Some 60,
      remainingQuantity = Some 0, isActive = True, isDeleted = False \<rparr>"

definition exMed3 :: Medication where
  "exMed3 = \<lparr> med_id = 3, med_user = 7, med_name = ''Ibuprofen'', medType = ''scheduled'',
      timings = [''09:00''], totalQuantity = Some 20,
      remainingQuantity = Some 20, isActive = False, isDeleted = True \<rparr>"

definition exStore2 :: Store where
  "exStore2 = exStore\<lparr>medications := [exMed, exMed2, exMed3]\<rparr>"

text \<open>The store with \<open>exMed\<close> switched to inactive (and not deleted).\<close>

definition exStoreInactive :: Store where
  "exStoreInactive = exStore\<lparr>medications := [exMed\<lparr>isActive := False\<rparr>]\<rparr>"


definition failAudit :: "storeOp \<Rightarrow> bool" where
  "failAudit op = (case op of EventCreate t \<Rightarrow> True | _ \<Rightarrow> False)"

text \<open>Requests of the patient.\<close>

definition exUser :: User where
  "exUser = \<lparr> user_id = 7, user_name = ''Asha'', user_email = ''asha@example.org'', timezone = Some 330 \<rparr>"

definition doseRequest :: "oid \<Rightarrow> string \<Rightarrow> string \<Rightarrow> DoseRequest" where
  "doseRequest medId slot status =
     \<lparr> req_user = exUser, req_medId = medId, req_scheduledTime = slot, req_status = status \<rparr>"

text \<open>
  The store after a pass at 17:30 of the patient's day 10, and after her taken report for the
  slot 08:00 five minutes later.
\<close>

definition afterSweep :: Store where
  "afterSweep = fst (runAutomatedReaper noFaults 907200000 exStore)"

definition afterDose :: Store where
  "afterDose = fst (logDose noFaults 907500000 (doseRequest 1 ''08:00'' ''taken'') afterSweep)"


text \<open>
  Stores whose only medication has one slot that is no time of day: the hour -1, and an hour
  far beyond the range of a date.
\<close>

definition exStoreEarly :: Store where
  "exStoreEarly = exStore\<lparr>medications := [exMed\<lparr>timings := [''-1:00'']\<rparr>]\<rparr>"

definition exStoreFar :: Store where
  "exStoreFar = exStore\<lparr>medications := [exMed\<lparr>timings := [''99999999999:00'']\<rparr>]\<rparr>"

section \<open>Properties of the inventory runway\<close>

lemma jsLe_Num [simp]: "jsLe (Num n) k = (n \<le> k)"
  by (simp add: jsLe_def)

lemma jsLe_NaN [simp]: "jsLe NaN k = False"
  by (simp add: jsLe_def)

text \<open>
  C8. The patient has one active, non-deleted medication, with \<open>remainingQuantity = 10\<close> and
  three daily slots. The query for her does not report 3 days and a status: it throws the
  \<open>ReferenceError\<close> of the unbound name \<open>Medication\<close>, as it does on every call. Were the
  name bound, the body would read \<open>currentInventory\<close>, find nothing, and report no stock,
  \<open>NaN\<close> days and status Healthy.
\<close>

theorem runway_not_defined:
  "remainingQuantity exMed = Some 10 \<and> length (timings exMed) = 3
   \<and> isActive exMed \<and> \<not> isDeleted exMed \<and> med_user exMed = 7
   \<and> getInventoryRunway 7 [exMed] = Inl (NotDefined ''Medication'')
   \<and> map (\<lambda>r. (medicationId r, currentStock r, daysRemaining r, rep_status r)) (inventoryReports 7 [exMed])
       = [(1, None, NaN, ''Healthy'')]"
  by (simp add: getInventoryRunway_def analyticsImports_def inventoryReports_def inventoryReport_def
      currentInventory_def exMed_def floorDiv_def Let_def)

section \<open>Properties of the reliability index\<close>

text \<open>
  The walk from a streak of \<open>n\<close> days adds the number of leading clean days among the next
  \<open>90 - n\<close> days.
\<close>

lemma walk_takeWhile:
  "n < 90 \<Longrightarrow> reliabilityWalk ls u c n =
     n + length (takeWhile (\<lambda>k. dailyLogs ls u (c - int k * msPerDay) \<noteq> [] \<and>
                                \<not> hasMissed (dailyLogs ls u (c - int k * msPerDay))) [0..<90 - n])"
proof (induction ls u c n rule: reliabilityWalk.induct)
  case (1 ls u c n)
  let ?P = "\<lambda>c k. dailyLogs ls u (c - int k * msPerDay) \<noteq> [] \<and>
                                \<not> hasMissed (dailyLogs ls u (c - int k * msPerDay))"
  have up0: "[0..<Suc m] = 0 # map Suc [0..<m]" for m
    by (simp add: upt_conv_Cons map_Suc_upt del: upt_Suc)
  have "90 - n = Suc (89 - n)" using 1(2) by arith
  then have up: "[0..<90 - n] = 0 # map Suc [0..<89 - n]"
    by (simp only: up0)
  have sh: "takeWhile (?P c) (map Suc xs) = map Suc (takeWhile (?P (c - msPerDay)) xs)" for xs
    by (simp add: takeWhile_map comp_def algebra_simps)
  show ?case
  proof (cases "?P c 0")
    case False
    then show ?thesis
      by (subst reliabilityWalk.simps) (auto simp: up)
  next
    case True
    show ?thesis
    proof (cases "n + 1 \<ge> 90")
      case True
      with 1(2) have "n = 89" by simp
      with \<open>?P c 0\<close> show ?thesis
        by (subst reliabilityWalk.simps) (auto simp: up)
    next
      case False
      then have lt: "n + 1 < 90" by simp
      have d0: "dailyLogs ls u c \<noteq> []" and d1: "\<not> hasMissed (dailyLogs ls u c)"
        using True by simp_all
      have ih: "reliabilityWalk ls u (c - msPerDay) (n + 1) =
          n + 1 + length (takeWhile (?P (c - msPerDay)) [0..<90 - (n + 1)])"
        using 1(1)[OF d0 d1 _ lt] False by simp
      have "reliabilityWalk ls u c n = reliabilityWalk ls u (c - msPerDay) (n + 1)"
        using d0 d1 False by (subst reliabilityWalk.simps) simp
      also note ih
      finally show ?thesis
        using True by (simp add: up sh del: upt_Suc)
    qed
  qed
qed

lemmas day_defs =
  cleanDay_def dailyLogs_def hasMissed_def startOfDay_def msPerDay_def msPerMinute_def mkLog_def

text \<open>
  C9, counterexample. The server runs in UTC and the subject lives 330 minutes ahead of it. In
  the subject's zone the days D, D-1 and D-2 each hold a taken entry and D-3 holds none, so a
  walk in the subject's zone counts 3; the function, which walks the days of the server's
  zone, finds no entry today and returns 0.
\<close>

theorem reliability_zone_counterexample:
  "cleanDay 330 907200000 earlyLogs 7 0 \<and> cleanDay 330 907200000 earlyLogs 7 1 \<and>
   cleanDay 330 907200000 earlyLogs 7 2 \<and>
   dailyLogs earlyLogs 7 (startOfDay 330 907200000 - 3 * msPerDay) = [] \<and>
   calculateReliabilityIndex 0 907200000 earlyLogs 7 = 0"
proof -
  have "dailyLogs earlyLogs 7 (startOfDay 0 907200000) = []"
    by (simp add: day_defs earlyLogs_def)
  then have "calculateReliabilityIndex 0 907200000 earlyLogs 7 = 0"
    by (simp add: calculateReliabilityIndex_def reliabilityWalk.simps)
  moreover have "cleanDay 330 907200000 earlyLogs 7 0 \<and> cleanDay 330 907200000 earlyLogs 7 1 \<and>
   cleanDay 330 907200000 earlyLogs 7 2 \<and>
   dailyLogs earlyLogs 7 (startOfDay 330 907200000 - 3 * msPerDay) = []"
    by (simp add: day_defs earlyLogs_def)
  ultimately show ?thesis by blast
qed

text \<open>
  C9, as amended. The index walks backward from today one calendar day at a time in the
  default zone \<open>z\<close> of the server process: it is the number of leading clean days (a day with
  an entry of the subject and no missed entry) among today and the 89 days before it. So a day
  with no entries stops the walk uncounted, a day with a missed entry stops it, any other day
  counts, and the walk stops at 90; entries without a miss on D, D-1 and D-2 and none on D-3
  give exactly 3.
\<close>

theorem reliability_index_walk:
  "calculateReliabilityIndex z now ls u = length (takeWhile (cleanDay z now ls u) [0..<90])
   \<and> calculateReliabilityIndex z now ls u \<le> 90
   \<and> (cleanDay z now ls u 0 \<and> cleanDay z now ls u 1 \<and> cleanDay z now ls u 2 \<and>
        dailyLogs ls u (startOfDay z now - 3 * msPerDay) = []
        \<longrightarrow> calculateReliabilityIndex z now ls u = 3)"
proof -
  have eq: "calculateReliabilityIndex z now ls u = length (takeWhile (cleanDay z now ls u) [0..<90])"
    unfolding calculateReliabilityIndex_def cleanDay_def
    using walk_takeWhile[of 0 ls u "startOfDay z now"] by simp
  have le: "length (takeWhile (cleanDay z now ls u) [0..<90]) \<le> 90"
    using length_takeWhile_le[of "cleanDay z now ls u" "[0..<90]"] by simp
  have three: "length (takeWhile (cleanDay z now ls u) [0..<90]) = 3"
    if h: "cleanDay z now ls u 0" "cleanDay z now ls u 1" "cleanDay z now ls u 2"
      and g: "dailyLogs ls u (startOfDay z now - 3 * msPerDay) = []"
  proof -
    have n3: "\<not> cleanDay z now ls u 3" using g by (simp add: cleanDay_def)
    have "[0..<90] = [0, 1, 2, 3] @ [4..<90]"
      by (simp add: upt_conv_Cons del: upt_Suc)
    then have "takeWhile (cleanDay z now ls u) [0..<90] = [0, 1, 2]"
      using h n3 by (simp del: upt_Suc add: numeral_2_eq_2 numeral_3_eq_3)
    then show ?thesis by simp
  qed
  show ?thesis using eq le three by simp
qed

text \<open>
  C9, witness: with the server in UTC, entries at 08:00 on days 10, 9 and 8 (taken, taken,
  skipped) and none on day 7 give an index of 3 at noon of day 10.
\<close>

theorem reliability_index_walk_witness:
  "calculateReliabilityIndex 0 907200000 streakLogs 7 = 3"
proof -
  have "cleanDay 0 907200000 streakLogs 7 0 \<and> cleanDay 0 907200000 streakLogs 7 1 \<and>
        cleanDay 0 907200000 streakLogs 7 2 \<and>
        dailyLogs streakLogs 7 (startOfDay 0 907200000 - 3 * msPerDay) = []"
    by (simp add: day_defs streakLogs_def)
  then show ?thesis
    using reliability_index_walk[of 0 907200000 streakLogs 7] by blast
qed

section \<open>Local days\<close>

lemma msPerDay_pos: "0 < msPerDay"
  by (simp add: msPerDay_def)

lemma startOfDay_localDay: "startOfDay z t = localDay z t * msPerDay - z * msPerMinute"
proof -
  have "(t + z * msPerMinute) = (t + z * msPerMinute) div msPerDay * msPerDay + (t + z * msPerMinute) mod msPerDay"
    by simp
  then show ?thesis
    unfolding startOfDay_def localDay_def by linarith
qed

lemma div_eq_iff_range:
  fixes a q d :: int
  assumes "0 < d"
  shows "(a div d = q) = (q * d \<le> a \<and> a \<le> q * d + (d - 1))"
proof
  assume "a div d = q"
  then have "a = q * d + a mod d" by (metis div_mult_mod_eq)
  moreover have "0 \<le> a mod d" "a mod d < d" using assms by simp_all
  ultimately show "q * d \<le> a \<and> a \<le> q * d + (d - 1)" by linarith
next
  assume h: "q * d \<le> a \<and> a \<le> q * d + (d - 1)"
  then have "0 \<le> a - q * d" "a - q * d < d" by linarith+
  moreover have "a = d * q + (a - q * d)" by (simp add: algebra_simps)
  ultimately show "a div d = q" by (metis int_div_pos_eq)
qed

lemma inDay_iff:
  "(startOfDay z now \<le> t \<and> t \<le> endOfDay z now) = (localDay z t = localDay z now)"
proof -
  have "(localDay z t = localDay z now) =
        (localDay z now * msPerDay \<le> t + z * msPerMinute \<and>
         t + z * msPerMinute \<le> localDay z now * msPerDay + (msPerDay - 1))"
    unfolding localDay_def[of z t] by (rule div_eq_iff_range[OF msPerDay_pos])
  then show ?thesis
    unfolding endOfDay_def startOfDay_localDay by linarith
qed

lemma now_inDay: "startOfDay z now \<le> now \<and> now \<le> endOfDay z now"
  by (simp add: inDay_iff)

lemma existingLog_None_iff:
  "(existingLog ls mid s (startOfDay z now) (endOfDay z now) = None) =
   (\<forall>l\<in>set ls. \<not> (log_medication l = mid \<and> log_scheduledTime l = s \<and>
                     localDay z (createdAt l) = localDay z now))"
  by (auto simp add: existingLog_def find_None_iff inDay_iff)

lemma existingLog_Some_iff:
  "(existingLog ls mid s (startOfDay z now) (endOfDay z now) \<noteq> None) =
   (\<exists>l\<in>set ls. log_medication l = mid \<and> log_scheduledTime l = s \<and>
                     localDay z (createdAt l) = localDay z now)"
  by (auto simp add: existingLog_None_iff)

section \<open>Reading a slot\<close>

lemma roundDouble_small: "\<bar>n\<bar> < 2 ^ 53 \<Longrightarrow> roundDouble n = Some n"
  by (simp add: roundDouble_def)

text \<open>Building the date-time of a slot fails on a field that is no number, and only then.\<close>

lemma scheduledDateTime_Inr_iff:
  "(\<exists>d. scheduledDateTime z now s = Inr d) =
   (jsNumber (hourField s) \<noteq> NotANumber \<and> jsNumber (minuteField s) \<noteq> NotANumber)"
  by (simp add: scheduledDateTime_def luxonSet_def)

lemma scheduledDateTime_Inl:
  "scheduledDateTime z now s = Inl e \<Longrightarrow>
     e = InvalidUnit \<and> (jsNumber (hourField s) = NotANumber \<or> jsNumber (minuteField s) = NotANumber)"
  by (auto simp: scheduledDateTime_def luxonSet_def split: if_splits)

lemma overdue_reads:
  "overdue z now s \<Longrightarrow> \<exists>d. scheduledDateTime z now s = Inr d"
  by (auto simp: overdue_def split: sum.splits)

text \<open>
  A slot that reads as a time of day, under a clock in range: its date-time is that time on
  the local date of \<open>now\<close>, and it is overdue when \<open>now\<close> is more than two hours past it.
\<close>

lemma timeOfDay_bounds:
  assumes "0 \<le> h" "h < 24" "0 \<le> m" "m < 60"
  shows "0 \<le> h * 3600000 + m * 60000" "h * 3600000 + m * 60000 < (86400000 :: int)"
  using assms by linarith+

lemma scheduledDateTime_timeOfDay:
  assumes "jsNumber (hourField s) = Finite h" "jsNumber (minuteField s) = Finite m"
    and "0 \<le> h" "h < 24" "0 \<le> m" "m < 60" "clockInRange z now"
  shows "scheduledDateTime z now s = Inr (Valid (startOfDay z now + (h * 60 + m) * msPerMinute))"
    and "plusHours z 2 (Valid (startOfDay z now + (h * 60 + m) * msPerMinute))
           = Valid (startOfDay z now + (h * 60 + m) * msPerMinute + twoHours)"
proof -
  define x where "x = now + z * 60000"
  define t where "t = h * 3600000 + m * 60000"
  have t: "0 \<le> t" "t < 86400000"
    unfolding t_def using timeOfDay_bounds[OF assms(3-6)] by simp_all
  have md: "0 \<le> x mod 86400000" "x mod 86400000 < 86400000" by simp_all
  have rng: "\<bar>x\<bar> + 172800000 \<le> 8640000000000000"
    using assms(7) by (simp add: clockInRange_def x_def msPerMinute_def msPerDay_def maxTime_def)
  have sod: "startOfDay z now + z * 60000 = x - x mod 86400000"
    by (simp add: startOfDay_def x_def msPerMinute_def msPerDay_def)
  have h1: "roundDouble (h * 3600000) = Some (h * 3600000)"
    using assms(3,4) by (intro roundDouble_small) simp
  have m1: "roundDouble (m * 60000) = Some (m * 60000)"
    using assms(5,6) by (intro roundDouble_small) simp
  have t1: "roundDouble (h * 3600000 + m * 60000) = Some t"
    using t unfolding t_def by (intro roundDouble_small) simp
  have mt: "makeTime h m 0 = Some t"
    using h1 m1 t1 by (simp add: makeTime_def t_def)
  have l: "\<bar>x - x mod 86400000 + t\<bar> \<le> 8640000000000000" "\<bar>x - x mod 86400000 + t\<bar> < 2 ^ 53"
    "\<bar>x - x mod 86400000 + t + 7200000\<bar> \<le> 8640000000000000"
    using md t rng by simp_all
  have l1: "roundDouble (x - x mod 86400000 + t) = Some (x - x mod 86400000 + t)"
    using l(2) by (rule roundDouble_small)
  have tm: "(h * 60 + m) * msPerMinute = t"
    by (simp add: t_def msPerMinute_def algebra_simps)
  have eq: "x - x mod 86400000 + t - z * 60000 = startOfDay z now + t"
    using sod by simp
  have r: "roundDouble (startOfDay z now + z * msPerMinute + t) = Some (x - x mod 86400000 + t)"
    using l1 sod by (simp add: msPerMinute_def)
  have v: "x - x mod 86400000 + t - z * msPerMinute = startOfDay z now + t"
    using eq by (simp add: msPerMinute_def)
  have "luxonSet z now 0 (Finite h) (Finite m) = Inr (Valid (startOfDay z now + t))"
    using mt r v l(1) by (simp add: luxonSet_def maxTime_def)
  then show "scheduledDateTime z now s = Inr (Valid (startOfDay z now + (h * 60 + m) * msPerMinute))"
    unfolding tm scheduledDateTime_def assms(1,2) .
  have "startOfDay z now + t + 2 * 3600000 + z * 60000 = x - x mod 86400000 + t + 7200000"
    using sod by simp
  then show "plusHours z 2 (Valid (startOfDay z now + (h * 60 + m) * msPerMinute))
           = Valid (startOfDay z now + (h * 60 + m) * msPerMinute + twoHours)"
    unfolding tm using l(3) by (simp add: plusHours_def msPerMinute_def maxTime_def twoHours_def)
qed

lemma overdue_timeOfDay:
  assumes "jsNumber (hourField s) = Finite h" "jsNumber (minuteField s) = Finite m"
    and "0 \<le> h" "h < 24" "0 \<le> m" "m < 60" "clockInRange z now"
  shows "overdue z now s = (startOfDay z now + (h * 60 + m) * msPerMinute + twoHours < now)"
  using scheduledDateTime_timeOfDay[OF assms]
  by (auto simp add: overdue_def notAfter_def)

text \<open>That time lies on the local date of \<open>now\<close>.\<close>

lemma timeOfDay_today:
  assumes "0 \<le> h" "h < 24" "0 \<le> m" "m < 60"
  shows "localDay z (startOfDay z now + (h * 60 + m) * msPerMinute) = localDay z now"
proof -
  have "(h * 60 + m) * msPerMinute = h * 3600000 + m * 60000"
    by (simp add: msPerMinute_def algebra_simps)
  with timeOfDay_bounds[OF assms]
  have "0 \<le> (h * 60 + m) * msPerMinute" "(h * 60 + m) * msPerMinute \<le> msPerDay - 1"
    by (simp_all add: msPerDay_def)
  then have "startOfDay z now \<le> startOfDay z now + (h * 60 + m) * msPerMinute \<and>
             startOfDay z now + (h * 60 + m) * msPerMinute \<le> endOfDay z now"
    by (simp add: endOfDay_def)
  then show ?thesis by (simp only: inDay_iff)
qed

text \<open>The slots of the examples.\<close>

lemma example_slots:
  "jsNumber (hourField ''08:00'') = Finite 8" "jsNumber (minuteField ''08:00'') = Finite 0"
  "jsNumber (hourField ''09:00'') = Finite 9" "jsNumber (minuteField ''09:00'') = Finite 0"
  "jsNumber (hourField ''14:00'') = Finite 14" "jsNumber (minuteField ''14:00'') = Finite 0"
  "jsNumber (hourField ''20:00'') = Finite 20" "jsNumber (minuteField ''20:00'') = Finite 0"
  "jsNumber (hourField ''-1:00'') = Finite (- 1)" "jsNumber (minuteField ''-1:00'') = Finite 0"
  "jsNumber (hourField ''99999999999:00'') = Finite 99999999999"
  "jsNumber (minuteField ''99999999999:00'') = Finite 0"
  "jsParseInt (hourField ''08:00'') = Finite 8" "jsParseInt (minuteField ''08:00'') = Finite 0"
  "jsParseInt (hourField ''09:00'') = Finite 9" "jsParseInt (minuteField ''09:00'') = Finite 0"
  by code_simp+


text \<open>What one slot does to the store.\<close>

lemma reapSlot_cases:
  assumes "reapSlot flt now u med s st = (st', r)"
  obtains
    (skip) "st' = st" "r = Inr 0"
      "\<exists>d. scheduledDateTime (userZone u) now s = Inr d"
      "\<not> overdue (userZone u) now s \<or>
       existingLog (logs st) (med_id med) s (startOfDay (userZone u) now) (endOfDay (userZone u) now) \<noteq> None"
      "overdue (userZone u) now s \<longrightarrow> \<not> flt (LogFindOne (med_id med) s)"
  | (fail) e where "st' = st" "r = Inl e"
  | (made) q where "overdue (userZone u) now s"
      "existingLog (logs st) (med_id med) s (startOfDay (userZone u) now) (endOfDay (userZone u) now) = None"
      "st' = st\<lparr>logs := logs st @ [missedLog now u med s], alertQueue := q\<rparr>"
      "r = Inr 1 \<or> (\<exists>e. r = Inl e)"
      "\<not> flt (LogFindOne (med_id med) s)" "\<not> flt (LogCreate (med_id med) s)"
      "r = Inr 1 \<longrightarrow> \<not> flt (ConnectionFind (user_id u)) \<and>
         queueAlerts flt (users st) u med s
           (filter (\<lambda>c. patientId c = user_id u \<and> conn_status c = ''active'') (connections st))
           (alertQueue st) = (q, None)"
proof (cases "scheduledDateTime (userZone u) now s")
  case (Inl e)
  with assms have "st' = st" "r = Inl e" by (auto simp: reapSlot_def)
  then show ?thesis by (rule fail)
next
  case (Inr d)
  show ?thesis
  proof (cases "notAfter now (plusHours (userZone u) 2 d)")
    case True
    with Inr assms have "st' = st" "r = Inr 0" by (auto simp: reapSlot_def)
    moreover have "\<not> overdue (userZone u) now s" using True Inr by (simp add: overdue_def)
    ultimately show ?thesis using Inr by (intro skip) auto
  next
    case False
    then have od: "overdue (userZone u) now s" using Inr by (simp add: overdue_def)
    show ?thesis
    proof (cases "flt (LogFindOne (med_id med) s)")
      case True
      with Inr False assms have "st' = st" "r = Inl (StoreFailure (LogFindOne (med_id med) s))"
        by (auto simp: reapSlot_def)
      then show ?thesis by (rule fail)
    next
      case nf: False
      show ?thesis
      proof (cases "existingLog (logs st) (med_id med) s (startOfDay (userZone u) now) (endOfDay (userZone u) now)")
        case (Some l)
        with Inr False nf assms have "st' = st" "r = Inr 0"
          by (auto simp: reapSlot_def)
        then show ?thesis using Some Inr nf by (intro skip) auto
      next
        case None
        show ?thesis
        proof (cases "flt (LogCreate (med_id med) s)")
          case True
          with None Inr False nf assms
          have "st' = st" "r = Inl (StoreFailure (LogCreate (med_id med) s))"
            by (auto simp: reapSlot_def)
          then show ?thesis by (rule fail)
        next
          case nc: False
          show ?thesis
          proof (cases "flt (ConnectionFind (user_id u))")
            case True
            with nc None Inr False nf assms
            have "st' = st\<lparr>logs := logs st @ [missedLog now u med s], alertQueue := alertQueue st\<rparr>"
              "r = Inl (StoreFailure (ConnectionFind (user_id u)))"
              by (auto simp: reapSlot_def)
            then show ?thesis using od None nf nc by (intro made[of "alertQueue st"]) auto
          next
            case ncf: False
            obtain q ro where qa: "queueAlerts flt (users st) u med s
                (filter (\<lambda>c. patientId c = user_id u \<and> conn_status c = ''active'') (connections st))
                (alertQueue st) = (q, ro)"
              by (cases "queueAlerts flt (users st) u med s
                (filter (\<lambda>c. patientId c = user_id u \<and> conn_status c = ''active'') (connections st))
                (alertQueue st)") auto
            with ncf nc None Inr False nf assms
            have "st' = st\<lparr>logs := logs st @ [missedLog now u med s], alertQueue := q\<rparr>"
              "r = Inr 1 \<or> (\<exists>e. r = Inl e)" "r = Inr 1 \<longrightarrow> ro = None"
              by (auto simp: reapSlot_def split: option.splits)
            then show ?thesis using od None nf nc ncf qa by (intro made[of q]) auto
          qed
        qed
      qed
    qed
  qed
qed


section \<open>The loops of the sweeper\<close>

lemma reapSlot_frame:
  assumes "reapSlot flt now u med s st = (st', r)"
  shows "users st' = users st \<and> medications st' = medications st \<and>
         connections st' = connections st \<and> events st' = events st"
  using assms by (cases rule: reapSlot_cases) auto

lemma reapSlot_logs:
  assumes "reapSlot flt now u med s st = (st', r)"
  shows "logs st' = logs st \<or>
         (logs st' = logs st @ [missedLog now u med s] \<and> overdue (userZone u) now s \<and>
          existingLog (logs st) (med_id med) s (startOfDay (userZone u) now) (endOfDay (userZone u) now) = None)"
  using assms by (cases rule: reapSlot_cases) auto

lemma reapSlots_frame:
  "reapSlots flt now u med ss c st = (st', r) \<Longrightarrow>
     users st' = users st \<and> medications st' = medications st \<and>
     connections st' = connections st \<and> events st' = events st"
proof (induction ss arbitrary: c st)
  case Nil
  then show ?case by simp
next
  case (Cons s ss)
  obtain st1 r1 where s1: "reapSlot flt now u med s st = (st1, r1)"
    by (cases "reapSlot flt now u med s st") auto
  note f1 = reapSlot_frame[OF s1]
  show ?case
  proof (cases r1)
    case (Inl e)
    with Cons.prems s1 have "st' = st1" by simp
    with f1 show ?thesis by simp
  next
    case (Inr k)
    with Cons.prems s1 have "reapSlots flt now u med ss (c + k) st1 = (st', r)" by simp
    from Cons.IH[OF this] f1 show ?thesis by simp
  qed
qed

lemma existingLog_prefix:
  "existingLog (ls @ new) mid s a b = None \<Longrightarrow> existingLog ls mid s a b = None"
  by (auto simp: existingLog_def find_None_iff)

text \<open>
  The entries a run of slots appends: each is the missed entry of an overdue slot of the run
  for which the ledger before the run held no entry created today.
\<close>

lemma reapSlots_new:
  "reapSlots flt now u med ss c st = (st', r) \<Longrightarrow>
     \<exists>new. logs st' = logs st @ new \<and>
       (\<forall>l\<in>set new. \<exists>s\<in>set ss. l = missedLog now u med s \<and> overdue (userZone u) now s \<and>
          existingLog (logs st) (med_id med) s
            (startOfDay (userZone u) now) (endOfDay (userZone u) now) = None)"
proof (induction ss arbitrary: c st)
  case Nil
  then show ?case by simp
next
  case (Cons s ss)
  obtain st1 r1 where s1: "reapSlot flt now u med s st = (st1, r1)"
    by (cases "reapSlot flt now u med s st") auto
  from reapSlot_logs[OF s1]
  obtain n1 where n1: "logs st1 = logs st @ n1"
    "\<forall>l\<in>set n1. l = missedLog now u med s \<and> overdue (userZone u) now s \<and>
       existingLog (logs st) (med_id med) s
         (startOfDay (userZone u) now) (endOfDay (userZone u) now) = None"
    by (cases "logs st1 = logs st") auto
  show ?case
  proof (cases r1)
    case (Inl e)
    with Cons.prems s1 have "st' = st1" by simp
    with n1 show ?thesis by auto
  next
    case (Inr k)
    with Cons.prems s1 have "reapSlots flt now u med ss (c + k) st1 = (st', r)" by simp
    from Cons.IH[OF this] obtain n2 where n2: "logs st' = logs st1 @ n2"
      "\<forall>l\<in>set n2. \<exists>s\<in>set ss. l = missedLog now u med s \<and> overdue (userZone u) now s \<and>
         existingLog (logs st1) (med_id med) s
           (startOfDay (userZone u) now) (endOfDay (userZone u) now) = None"
      by blast
    have n2': "\<forall>l\<in>set n2. \<exists>s\<in>set ss. l = missedLog now u med s \<and> overdue (userZone u) now s \<and>
         existingLog (logs st) (med_id med) s
           (startOfDay (userZone u) now) (endOfDay (userZone u) now) = None"
      using n2(2) existingLog_prefix unfolding n1(1) by blast
    have "logs st' = logs st @ (n1 @ n2)" using n1 n2 by simp
    moreover have "\<forall>l\<in>set (n1 @ n2). \<exists>s'\<in>set (s # ss). l = missedLog now u med s' \<and>
        overdue (userZone u) now s' \<and>
        existingLog (logs st) (med_id med) s'
          (startOfDay (userZone u) now) (endOfDay (userZone u) now) = None"
      using n1(2) n2' by auto
    ultimately show ?thesis by blast
  qed
qed

lemma reapMeds_frame:
  "reapMeds flt now meds c st = (st', r) \<Longrightarrow>
     users st' = users st \<and> medications st' = medications st \<and>
     connections st' = connections st \<and> events st' = events st"
proof (induction meds arbitrary: c st)
  case Nil
  then show ?case by simp
next
  case (Cons med meds)
  show ?case
  proof (cases "populateUser (users st) (med_user med)")
    case None
    with Cons.prems have "reapMeds flt now meds c st = (st', r)" by simp
    from Cons.IH[OF this] show ?thesis .
  next
    case (Some u)
    obtain st1 r1 where s1: "reapSlots flt now u med (timings med) c st = (st1, r1)"
      by (cases "reapSlots flt now u med (timings med) c st") auto
    note f1 = reapSlots_frame[OF s1]
    show ?thesis
    proof (cases r1)
      case (Inl e)
      with Cons.prems Some s1 have "st' = st1" by simp
      with f1 show ?thesis by simp
    next
      case (Inr k)
      with Cons.prems Some s1 have "reapMeds flt now meds k st1 = (st', r)" by simp
      from Cons.IH[OF this] f1 show ?thesis by simp
    qed
  qed
qed

text \<open>The entries a pass appends.\<close>

lemma reapMeds_new:
  "reapMeds flt now meds c st = (st', r) \<Longrightarrow>
     \<exists>new. logs st' = logs st @ new \<and>
       (\<forall>l\<in>set new. \<exists>med\<in>set meds. \<exists>u. populateUser (users st) (med_user med) = Some u \<and>
           (\<exists>s\<in>set (timings med). l = missedLog now u med s \<and> overdue (userZone u) now s \<and>
              existingLog (logs st) (med_id med) s
                (startOfDay (userZone u) now) (endOfDay (userZone u) now) = None))"
proof (induction meds arbitrary: c st)
  case Nil
  then show ?case by simp
next
  case (Cons med meds)
  show ?case
  proof (cases "populateUser (users st) (med_user med)")
    case None
    with Cons.prems have "reapMeds flt now meds c st = (st', r)" by simp
    from Cons.IH[OF this] show ?thesis by auto
  next
    case (Some u)
    obtain st1 r1 where s1: "reapSlots flt now u med (timings med) c st = (st1, r1)"
      by (cases "reapSlots flt now u med (timings med) c st") auto
    note f1 = reapSlots_frame[OF s1]
    from reapSlots_new[OF s1] obtain n1 where n1: "logs st1 = logs st @ n1"
      "\<forall>l\<in>set n1. \<exists>s\<in>set (timings med). l = missedLog now u med s \<and> overdue (userZone u) now s \<and>
         existingLog (logs st) (med_id med) s
           (startOfDay (userZone u) now) (endOfDay (userZone u) now) = None"
      by blast
    show ?thesis
    proof (cases r1)
      case (Inl e)
      with Cons.prems Some s1 have "st' = st1" by simp
      with n1 Some show ?thesis by auto
    next
      case (Inr k)
      with Cons.prems Some s1 have "reapMeds flt now meds k st1 = (st', r)" by simp
      from Cons.IH[OF this] f1 obtain n2 where n2: "logs st' = logs st1 @ n2"
        "\<forall>l\<in>set n2. \<exists>med\<in>set meds. \<exists>u. populateUser (users st) (med_user med) = Some u \<and>
           (\<exists>s\<in>set (timings med). l = missedLog now u med s \<and> overdue (userZone u) now s \<and>
              existingLog (logs st1) (med_id med) s
                (startOfDay (userZone u) now) (endOfDay (userZone u) now) = None)"
        by auto
      have n2': "\<forall>l\<in>set n2. \<exists>med\<in>set meds. \<exists>u. populateUser (users st) (med_user med) = Some u \<and>
           (\<exists>s\<in>set (timings med). l = missedLog now u med s \<and> overdue (userZone u) now s \<and>
              existingLog (logs st) (med_id med) s
                (startOfDay (userZone u) now) (endOfDay (userZone u) now) = None)"
      proof
        fix l assume "l \<in> set n2"
        with n2(2) obtain m' u' s' where h: "m' \<in> set meds" "populateUser (users st) (med_user m') = Some u'"
          "s' \<in> set (timings m')" "l = missedLog now u' m' s'" "overdue (userZone u') now s'"
          "existingLog (logs st1) (med_id m') s'
                (startOfDay (userZone u') now) (endOfDay (userZone u') now) = None"
          by blast
        from h(6) have "existingLog (logs st) (med_id m') s'
                (startOfDay (userZone u') now) (endOfDay (userZone u') now) = None"
          unfolding n1(1) by (rule existingLog_prefix)
        with h show "\<exists>med\<in>set meds. \<exists>u. populateUser (users st) (med_user med) = Some u \<and>
           (\<exists>s\<in>set (timings med). l = missedLog now u med s \<and> overdue (userZone u) now s \<and>
              existingLog (logs st) (med_id med) s
                (startOfDay (userZone u) now) (endOfDay (userZone u) now) = None)"
          by blast
      qed
      have "logs st' = logs st @ (n1 @ n2)" using n1 n2 by simp
      moreover have "\<forall>l\<in>set (n1 @ n2). \<exists>m\<in>set (med # meds). \<exists>u. populateUser (users st) (med_user m) = Some u \<and>
           (\<exists>s\<in>set (timings m). l = missedLog now u m s \<and> overdue (userZone u) now s \<and>
              existingLog (logs st) (med_id m) s
                (startOfDay (userZone u) now) (endOfDay (userZone u) now) = None)"
        using n1(2) n2' Some by auto
      ultimately show ?thesis by blast
    qed
  qed
qed






section \<open>Entries of a pass\<close>

lemmas slot_defs =
  scheduledDateTime_def luxonSet_def makeTime_def roundDouble_def plusHours_def notAfter_def
  startOfDay_def endOfDay_def localDay_def msPerDay_def msPerMinute_def twoHours_def maxTime_def
  example_slots

lemmas pass_defs =
  runAutomatedReaper_def sweptMeds_def noFaults_def populateUser_def reapSlot_def userZone_def
  existingLog_def missedLog_def mkLog_def

text \<open>
  C10, counterexample. The only slot of the patient's medication in \<open>exStoreEarly\<close> is
  written \<open>-1:00\<close>, and the ledger is empty. The pass at 17:30 of her day 10 reads the hour
  as -1 and builds the slot's date-time from \<open>now\<close>: 23:00 of day 9. That instant of the
  earlier day, which no entry resolves, is more than two hours past, and the pass synthesizes
  the missed entry for it, stamped with day 10.
\<close>

theorem earlier_day_counterexample:
  "logs exStoreEarly = []
   \<and> scheduledDateTime 330 907200000 ''-1:00'' = Inr (Valid 840600000)
   \<and> localDay 330 840600000 = 9 \<and> localDay 330 907200000 = 10
   \<and> map (\<lambda>l. (log_medication l, log_scheduledTime l, log_status l, takenAt l))
        (logs (fst (runAutomatedReaper noFaults 907200000 exStoreEarly)))
      = [(1, ''-1:00'', ''missed'', 907200000)]
   \<and> snd (runAutomatedReaper noFaults 907200000 exStoreEarly) = Inr 1"
  by (simp add: pass_defs slot_defs exStoreEarly_def exStore_def exMed_def)

text \<open>
  C10, as amended. Every missed entry a pass synthesizes is dated to the owner's current
  local calendar day: the entries a pass appends (the ledger before the pass stays as it is)
  each belong to a swept medication with its owner and to one of its slots, are stamped
  \<open>now\<close>, and passed the test of the pass on the slot's date-time, which is built from
  \<open>now\<close> in the owner's zone; and the existence check that let the entry through looked at
  today only: the ledger before the pass held no entry of that medication and slot created
  on the owner's today. For a slot whose hour and minute read as a time of day (hour 0 to 23,
  minute 0 to 59, the clock in range) the date-time is the slot's instance of the owner's
  current day, more than two hours past: an instance of an earlier day is never what a pass
  synthesizes for such a slot.
\<close>

theorem sweeper_entries_dated_today:
  assumes "runAutomatedReaper flt now st = (st', r)"
  shows "take (length (logs st)) (logs st') = logs st \<and>
     (\<forall>l \<in> set (drop (length (logs st)) (logs st')).
        \<exists>med \<in> set (sweptMeds st). \<exists>u. populateUser (users st) (med_user med) = Some u \<and>
          log_medication l = med_id med \<and> log_user l = user_id u \<and>
          log_scheduledTime l \<in> set (timings med) \<and>
          log_status l = ''missed'' \<and> adherenceStatus l = ''missed'' \<and>
          takenAt l = now \<and> createdAt l = now \<and>
          localDay (userZone u) (takenAt l) = localDay (userZone u) now \<and>
          overdue (userZone u) now (log_scheduledTime l) \<and>
          (\<forall>h m. jsNumber (hourField (log_scheduledTime l)) = Finite h \<and>
                 jsNumber (minuteField (log_scheduledTime l)) = Finite m \<and>
                 0 \<le> h \<and> h < 24 \<and> 0 \<le> m \<and> m < 60 \<and> clockInRange (userZone u) now \<longrightarrow>
             scheduledDateTime (userZone u) now (log_scheduledTime l)
               = Inr (Valid (startOfDay (userZone u) now + (h * 60 + m) * msPerMinute)) \<and>
             localDay (userZone u) (startOfDay (userZone u) now + (h * 60 + m) * msPerMinute)
               = localDay (userZone u) now \<and>
             startOfDay (userZone u) now + (h * 60 + m) * msPerMinute + twoHours < now) \<and>
          (\<forall>l0\<in>set (logs st).
              \<not> (log_medication l0 = med_id med \<and> log_scheduledTime l0 = log_scheduledTime l \<and>
                 localDay (userZone u) (createdAt l0) = localDay (userZone u) now)))"
proof (cases "flt MedicationFind")
  case True
  with assms have "st' = st" by (simp add: runAutomatedReaper_def)
  then show ?thesis by simp
next
  case False
  with assms have run: "reapMeds flt now (sweptMeds st) 0 st = (st', r)"
    by (simp add: runAutomatedReaper_def)
  from reapMeds_new[OF run] obtain new where new: "logs st' = logs st @ new"
    "\<forall>l\<in>set new. \<exists>med\<in>set (sweptMeds st). \<exists>u. populateUser (users st) (med_user med) = Some u \<and>
           (\<exists>s\<in>set (timings med). l = missedLog now u med s \<and> overdue (userZone u) now s \<and>
              existingLog (logs st) (med_id med) s
                (startOfDay (userZone u) now) (endOfDay (userZone u) now) = None)"
    by blast
  have "\<exists>med \<in> set (sweptMeds st). \<exists>u. populateUser (users st) (med_user med) = Some u \<and>
          log_medication l = med_id med \<and> log_user l = user_id u \<and>
          log_scheduledTime l \<in> set (timings med) \<and>
          log_status l = ''missed'' \<and> adherenceStatus l = ''missed'' \<and>
          takenAt l = now \<and> createdAt l = now \<and>
          localDay (userZone u) (takenAt l) = localDay (userZone u) now \<and>
          overdue (userZone u) now (log_scheduledTime l) \<and>
          (\<forall>h m. jsNumber (hourField (log_scheduledTime l)) = Finite h \<and>
                 jsNumber (minuteField (log_scheduledTime l)) = Finite m \<and>
                 0 \<le> h \<and> h < 24 \<and> 0 \<le> m \<and> m < 60 \<and> clockInRange (userZone u) now \<longrightarrow>
             scheduledDateTime (userZone u) now (log_scheduledTime l)
               = Inr (Valid (startOfDay (userZone u) now + (h * 60 + m) * msPerMinute)) \<and>
             localDay (userZone u) (startOfDay (userZone u) now + (h * 60 + m) * msPerMinute)
               = localDay (userZone u) now \<and>
             startOfDay (userZone u) now + (h * 60 + m) * msPerMinute + twoHours < now) \<and>
          (\<forall>l0\<in>set (logs st).
              \<not> (log_medication l0 = med_id med \<and> log_scheduledTime l0 = log_scheduledTime l \<and>
                 localDay (userZone u) (createdAt l0) = localDay (userZone u) now))"
    if "l \<in> set new" for l
  proof -
    from new(2) that obtain med u s where m: "med \<in> set (sweptMeds st)"
      "populateUser (users st) (med_user med) = Some u" "s \<in> set (timings med)"
      "l = missedLog now u med s" "overdue (userZone u) now s"
      "existingLog (logs st) (med_id med) s
                (startOfDay (userZone u) now) (endOfDay (userZone u) now) = None"
      by blast
    have none: "\<forall>l0\<in>set (logs st).
              \<not> (log_medication l0 = med_id med \<and> log_scheduledTime l0 = s \<and>
                 localDay (userZone u) (createdAt l0) = localDay (userZone u) now)"
      using m(6) by (simp add: existingLog_None_iff)
    have tod: "scheduledDateTime (userZone u) now s
               = Inr (Valid (startOfDay (userZone u) now + (h * 60 + m) * msPerMinute)) \<and>
             localDay (userZone u) (startOfDay (userZone u) now + (h * 60 + m) * msPerMinute)
               = localDay (userZone u) now \<and>
             startOfDay (userZone u) now + (h * 60 + m) * msPerMinute + twoHours < now"
      if rd: "jsNumber (hourField s) = Finite h" "jsNumber (minuteField s) = Finite m"
        and bd: "0 \<le> h" "h < 24" "0 \<le> m" "m < 60" and ck: "clockInRange (userZone u) now"
      for h m
      using scheduledDateTime_timeOfDay(1)[OF rd bd ck] timeOfDay_today[OF bd]
        overdue_timeOfDay[OF rd bd ck] m(5) by simp
    have sl: "log_scheduledTime l = s" using m(4) by (simp add: missedLog_def)
    have rest: "log_medication l = med_id med \<and> log_user l = user_id u \<and>
          log_status l = ''missed'' \<and> adherenceStatus l = ''missed'' \<and>
          takenAt l = now \<and> createdAt l = now"
      using m(4) by (simp add: missedLog_def)
    show ?thesis
      unfolding sl using m(1,2,3,5) none tod rest
      by (intro bexI[of _ med] exI[of _ u]) simp_all
  qed
  with new(1) show ?thesis by simp
qed

text \<open>
  C10, witness: the pass over \<open>exStore\<close> at 17:30 of the patient's day 10 appends the entries
  of 08:00 and 14:00, both stamped with that instant and day.
\<close>

theorem sweeper_entries_dated_today_witness:
  "list_all (\<lambda>l. takenAt l = 907200000 \<and> createdAt l = 907200000 \<and> log_status l = ''missed'')
     (drop (length (logs exStore)) (logs (fst (runAutomatedReaper noFaults 907200000 exStore))))
   \<and> map log_scheduledTime (logs (fst (runAutomatedReaper noFaults 907200000 exStore)))
       = [''08:00'', ''14:00'']"
proof -
  obtain st' r where run: "runAutomatedReaper noFaults 907200000 exStore = (st', r)"
    by (cases "runAutomatedReaper noFaults 907200000 exStore") auto
  from sweeper_entries_dated_today[OF run]
  have "\<forall>l\<in>set (drop (length (logs exStore)) (logs st')).
          takenAt l = 907200000 \<and> createdAt l = 907200000 \<and> log_status l = ''missed''"
    by blast
  then have "list_all (\<lambda>l. takenAt l = 907200000 \<and> createdAt l = 907200000 \<and> log_status l = ''missed'')
     (drop (length (logs exStore)) (logs (fst (runAutomatedReaper noFaults 907200000 exStore))))"
    using run by (simp add: list_all_iff)
  moreover have "map log_scheduledTime (logs (fst (runAutomatedReaper noFaults 907200000 exStore)))
       = [''08:00'', ''14:00'']"
    by (simp add: pass_defs slot_defs exStore_def exMed_def)
  ultimately show ?thesis by blast
qed


section \<open>One entry per medication, slot and day\<close>

lemma find_by_key:
  "distinct (map f xs) \<Longrightarrow> x \<in> set xs \<Longrightarrow> find (\<lambda>y. f y = f x) xs = Some x"
proof (induction xs)
  case Nil
  then show ?case by simp
next
  case (Cons a xs)
  show ?case
  proof (cases "a = x")
    case True
    then show ?thesis by simp
  next
    case False
    with Cons.prems have x: "x \<in> set xs" by simp
    then have "f x \<in> f ` set xs" by simp
    with Cons.prems(1) have "f a \<noteq> f x" by auto
    moreover from Cons.IH x Cons.prems(1) have "find (\<lambda>y. f y = f x) xs = Some x" by simp
    ultimately show ?thesis by simp
  qed
qed

lemma ownerZone_frame:
  assumes "users st' = users st" "medications st' = medications st"
  shows "ownerZone st' = ownerZone st"
  unfolding ownerZone_def assms by (rule refl)

lemma slotKey_frame:
  assumes "users st' = users st" "medications st' = medications st"
  shows "slotKey st' = slotKey st"
  unfolding slotKey_def ownerZone_frame[OF assms] by (rule refl)

lemma ownerZone_swept:
  assumes "distinct (map med_id (medications st))" "med \<in> set (sweptMeds st)"
    "populateUser (users st) (med_user med) = Some u"
  shows "ownerZone st (med_id med) = userZone u"
proof -
  have "med \<in> set (medications st)" using assms(2) by (simp add: sweptMeds_def)
  from find_by_key[OF assms(1) this] assms(3) show ?thesis
    by (simp add: ownerZone_def)
qed

lemma reapSlot_distinct:
  assumes "reapSlot flt now u med s st = (st', r)"
    "distinct (map (slotKey st0) (logs st))" "ownerZone st0 (med_id med) = userZone u"
  shows "distinct (map (slotKey st0) (logs st'))"
proof -
  from reapSlot_logs[OF assms(1)] show ?thesis
  proof
    assume "logs st' = logs st"
    with assms(2) show ?thesis by simp
  next
    assume h: "logs st' = logs st @ [missedLog now u med s] \<and> overdue (userZone u) now s \<and>
      existingLog (logs st) (med_id med) s (startOfDay (userZone u) now) (endOfDay (userZone u) now) = None"
    then have none: "\<forall>l\<in>set (logs st). \<not> (log_medication l = med_id med \<and> log_scheduledTime l = s \<and>
                     localDay (userZone u) (createdAt l) = localDay (userZone u) now)"
      by (simp add: existingLog_None_iff)
    have "slotKey st0 (missedLog now u med s) \<notin> set (map (slotKey st0) (logs st))"
    proof
      assume "slotKey st0 (missedLog now u med s) \<in> set (map (slotKey st0) (logs st))"
      then obtain l where l: "l \<in> set (logs st)" "slotKey st0 l = slotKey st0 (missedLog now u med s)"
        by auto
      from l(2) have "log_medication l = med_id med" "log_scheduledTime l = s"
        by (simp_all add: slotKey_def missedLog_def)
      moreover from l(2) this assms(3)
      have "localDay (userZone u) (createdAt l) = localDay (userZone u) now"
        by (simp add: slotKey_def missedLog_def)
      ultimately show False using none l(1) by blast
    qed
    with h assms(2) show ?thesis by simp
  qed
qed

lemma reapSlots_distinct:
  "reapSlots flt now u med ss c st = (st', r) \<Longrightarrow>
   distinct (map (slotKey st0) (logs st)) \<Longrightarrow> ownerZone st0 (med_id med) = userZone u \<Longrightarrow>
   distinct (map (slotKey st0) (logs st'))"
proof (induction ss arbitrary: c st)
  case Nil
  then show ?case by simp
next
  case (Cons s ss)
  obtain st1 r1 where s1: "reapSlot flt now u med s st = (st1, r1)"
    by (cases "reapSlot flt now u med s st") auto
  note d1 = reapSlot_distinct[OF s1 Cons.prems(2,3)]
  show ?case
  proof (cases r1)
    case (Inl e)
    with Cons.prems s1 have "st' = st1" by simp
    with d1 show ?thesis by simp
  next
    case (Inr k)
    with Cons.prems s1 have "reapSlots flt now u med ss (c + k) st1 = (st', r)" by simp
    from Cons.IH[OF this d1 Cons.prems(3)] show ?thesis .
  qed
qed

lemma reapMeds_distinct:
  "reapMeds flt now meds c st = (st', r) \<Longrightarrow>
   distinct (map (slotKey st0) (logs st)) \<Longrightarrow>
   (\<forall>med\<in>set meds. \<forall>u. populateUser (users st) (med_user med) = Some u
       \<longrightarrow> ownerZone st0 (med_id med) = userZone u) \<Longrightarrow>
   distinct (map (slotKey st0) (logs st'))"
proof (induction meds arbitrary: c st)
  case Nil
  then show ?case by simp
next
  case (Cons med meds)
  show ?case
  proof (cases "populateUser (users st) (med_user med)")
    case None
    with Cons.prems have "reapMeds flt now meds c st = (st', r)" by simp
    from Cons.IH[OF this Cons.prems(2)] Cons.prems(3) show ?thesis by simp
  next
    case (Some u)
    obtain st1 r1 where s1: "reapSlots flt now u med (timings med) c st = (st1, r1)"
      by (cases "reapSlots flt now u med (timings med) c st") auto
    have z: "ownerZone st0 (med_id med) = userZone u" using Cons.prems(3) Some by simp
    note d1 = reapSlots_distinct[OF s1 Cons.prems(2) z]
    note f1 = reapSlots_frame[OF s1]
    show ?thesis
    proof (cases r1)
      case (Inl e)
      with Cons.prems Some s1 have "st' = st1" by simp
      with d1 show ?thesis by simp
    next
      case (Inr k)
      with Cons.prems Some s1 have run: "reapMeds flt now meds k st1 = (st', r)" by simp
      have "\<forall>med\<in>set meds. \<forall>u. populateUser (users st1) (med_user med) = Some u
               \<longrightarrow> ownerZone st0 (med_id med) = userZone u"
        using Cons.prems(3) f1 by simp
      from Cons.IH[OF run d1 this] show ?thesis .
    qed
  qed
qed

text \<open>One pass keeps the keys of the ledger distinct.\<close>

lemma pass_keeps_one_entry:
  assumes "distinct (map med_id (medications st))"
      and "distinct (map (slotKey st) (logs st))"
      and "runAutomatedReaper flt now st = (st', r)"
  shows "distinct (map med_id (medications st')) \<and> distinct (map (slotKey st') (logs st'))"
proof (cases "flt MedicationFind")
  case True
  with assms(3) have "st' = st" by (simp add: runAutomatedReaper_def)
  with assms(1,2) show ?thesis by simp
next
  case False
  with assms(3) have run: "reapMeds flt now (sweptMeds st) 0 st = (st', r)"
    by (simp add: runAutomatedReaper_def)
  note f = reapMeds_frame[OF run]
  have "\<forall>med\<in>set (sweptMeds st). \<forall>u. populateUser (users st) (med_user med) = Some u
           \<longrightarrow> ownerZone st (med_id med) = userZone u"
    using ownerZone_swept[OF assms(1)] by blast
  from reapMeds_distinct[OF run assms(2) this]
  have d: "distinct (map (slotKey st) (logs st'))" .
  have k: "slotKey st' = slotKey st" using f by (intro slotKey_frame) simp_all
  have m: "medications st' = medications st" using f by simp
  show ?thesis unfolding k m using d assms(1) by blast
qed


text \<open>
  C1, as amended. Sweeper passes run one after another keep at most one entry per medication,
  slot and owner-local calendar day of creation: a pass inserts only after its existence check
  finds no entry of that medication and slot created that day. (Medication ids are unique in
  the store.) The recorder makes no such check: see the counterexample.
\<close>

theorem sweeper_keeps_one_entry:
  assumes "distinct (map med_id (medications st))"
      and "distinct (map (slotKey st) (logs st))"
  shows "distinct (map med_id (medications (runPasses passes st))) \<and>
         distinct (map (slotKey (runPasses passes st)) (logs (runPasses passes st)))"
  using assms
proof (induction passes arbitrary: st)
  case Nil
  then show ?case by simp
next
  case (Cons p passes)
  obtain flt now where p: "p = (flt, now)" by (cases p) auto
  obtain st1 r where run: "runAutomatedReaper flt now st = (st1, r)"
    by (cases "runAutomatedReaper flt now st") auto
  from pass_keeps_one_entry[OF Cons.prems run]
  have "distinct (map med_id (medications st1))" "distinct (map (slotKey st1) (logs st1))"
    by simp_all
  from Cons.IH[OF this] show ?case using p run by simp
qed

lemmas dose_defs =
  logDose_def doseRequest_def exUser_def duplicateLog_def classify_def validLog_def newLog_def
  doseEffects_def recordEvent_def inc_def

text \<open>
  C1, witness: two passes over \<open>exStore\<close>, at 17:30 and a minute later, leave two entries,
  and their keys differ.
\<close>

theorem sweeper_keeps_one_entry_witness:
  "distinct (map (slotKey (runPasses [(noFaults, 907200000), (noFaults, 907260000)] exStore))
      (logs (runPasses [(noFaults, 907200000), (noFaults, 907260000)] exStore)))
   \<and> map log_scheduledTime (logs (runPasses [(noFaults, 907200000), (noFaults, 907260000)] exStore))
       = [''08:00'', ''14:00'']"
proof -
  have a: "distinct (map med_id (medications exStore))"
    by (simp add: exStore_def)
  have b: "distinct (map (slotKey exStore) (logs exStore))"
    by (simp add: exStore_def)
  from sweeper_keeps_one_entry[OF a b, of "[(noFaults, 907200000), (noFaults, 907260000)]"]
  have "distinct (map (slotKey (runPasses [(noFaults, 907200000), (noFaults, 907260000)] exStore))
      (logs (runPasses [(noFaults, 907200000), (noFaults, 907260000)] exStore)))"
    by blast
  moreover have "map log_scheduledTime
      (logs (runPasses [(noFaults, 907200000), (noFaults, 907260000)] exStore))
       = [''08:00'', ''14:00'']"
    by (simp add: pass_defs slot_defs exStore_def exMed_def)
  ultimately show ?thesis by blast
qed

text \<open>
  C1, counterexample. A pass at 17:30 writes a missed entry for the slot 08:00 of medication 1;
  five minutes later the patient reports the same slot taken, and the recorder, which only
  looks for a taken entry of the last ten minutes, writes a second entry for the same
  medication, slot and day.
\<close>

theorem recorder_second_entry_counterexample:
  "map (slotKey afterDose) (logs afterDose) = [(1, ''08:00'', 10), (1, ''14:00'', 10), (1, ''08:00'', 10)]
   \<and> map log_status (logs afterDose) = [''missed'', ''missed'', ''taken'']
   \<and> \<not> distinct (map (slotKey afterDose) (logs afterDose))"
proof -
  have k: "map (slotKey afterDose) (logs afterDose)
        = [(1, ''08:00'', 10), (1, ''14:00'', 10), (1, ''08:00'', 10)]"
    by (simp add: afterDose_def afterSweep_def pass_defs slot_defs exStore_def exMed_def dose_defs
        slotKey_def ownerZone_def)
  have s: "map log_status (logs afterDose) = [''missed'', ''missed'', ''taken'']"
    by (simp add: afterDose_def afterSweep_def pass_defs slot_defs exStore_def exMed_def dose_defs)
  show ?thesis unfolding k s by simp
qed


section \<open>A second pass\<close>

lemma existingLog_append:
  "existingLog ls mid s a b \<noteq> None \<Longrightarrow> existingLog (ls @ new) mid s a b \<noteq> None"
  by (auto simp: existingLog_def find_None_iff)

lemma existingLog_missedLog:
  "existingLog (ls @ [missedLog now u med s]) (med_id med) s (startOfDay z now) (endOfDay z now) \<noteq> None"
proof -
  have "missedLog now u med s \<in> set (ls @ [missedLog now u med s])" by simp
  moreover have "log_medication (missedLog now u med s) = med_id med \<and>
      log_scheduledTime (missedLog now u med s) = s \<and>
      startOfDay z now \<le> createdAt (missedLog now u med s) \<and>
      createdAt (missedLog now u med s) \<le> endOfDay z now"
    using now_inDay[of z now] by (simp add: missedLog_def)
  ultimately show ?thesis
    unfolding existingLog_def find_None_iff by blast
qed

lemma settled_append:
  "settled z now ls mid s \<Longrightarrow> settled z now (ls @ new) mid s"
  by (auto simp: settled_def existingLog_append)

text \<open>A slot whose step returned is settled in the ledger the step leaves.\<close>

lemma reapSlot_settled:
  assumes "reapSlot flt now u med s st = (st', Inr k)"
  shows "settled (userZone u) now (logs st') (med_id med) s"
  using assms
proof (cases rule: reapSlot_cases)
  case skip
  then show ?thesis by (auto simp: settled_def)
next
  case (fail e)
  then show ?thesis by simp
next
  case (made q)
  then show ?thesis
    using overdue_reads[OF made(1)] existingLog_missedLog[of "logs st" now u med s "userZone u"]
    by (simp add: settled_def)
qed

lemma reapSlots_settled:
  "reapSlots flt now u med ss c st = (st', Inr n) \<Longrightarrow>
     \<forall>s\<in>set ss. settled (userZone u) now (logs st') (med_id med) s"
proof (induction ss arbitrary: c st)
  case Nil
  then show ?case by simp
next
  case (Cons s ss)
  obtain st1 r1 where s1: "reapSlot flt now u med s st = (st1, r1)"
    by (cases "reapSlot flt now u med s st") auto
  show ?case
  proof (cases r1)
    case (Inl e)
    with Cons.prems s1 show ?thesis by simp
  next
    case (Inr k)
    with Cons.prems s1 have rest: "reapSlots flt now u med ss (c + k) st1 = (st', Inr n)" by simp
    from reapSlots_new[OF rest] obtain new where new: "logs st' = logs st1 @ new" by blast
    from reapSlot_settled s1 Inr have "settled (userZone u) now (logs st1) (med_id med) s" by simp
    then have "settled (userZone u) now (logs st') (med_id med) s"
      unfolding new by (rule settled_append)
    with Cons.IH[OF rest] show ?thesis by simp
  qed
qed

lemma reapMeds_settled:
  "reapMeds flt now meds c st = (st', Inr n) \<Longrightarrow>
     \<forall>med\<in>set meds. \<forall>u. populateUser (users st) (med_user med) = Some u \<longrightarrow>
        (\<forall>s\<in>set (timings med). settled (userZone u) now (logs st') (med_id med) s)"
proof (induction meds arbitrary: c st)
  case Nil
  then show ?case by simp
next
  case (Cons med meds)
  show ?case
  proof (cases "populateUser (users st) (med_user med)")
    case None
    with Cons.prems have "reapMeds flt now meds c st = (st', Inr n)" by simp
    from Cons.IH[OF this] None show ?thesis by simp
  next
    case (Some u)
    obtain st1 r1 where s1: "reapSlots flt now u med (timings med) c st = (st1, r1)"
      by (cases "reapSlots flt now u med (timings med) c st") auto
    note f1 = reapSlots_frame[OF s1]
    show ?thesis
    proof (cases r1)
      case (Inl e)
      with Cons.prems Some s1 show ?thesis by simp
    next
      case (Inr k)
      with Cons.prems Some s1 have rest: "reapMeds flt now meds k st1 = (st', Inr n)" by simp
      from reapMeds_new[OF rest] obtain new where new: "logs st' = logs st1 @ new" by blast
      from reapSlots_settled s1 Inr
      have "\<forall>s\<in>set (timings med). settled (userZone u) now (logs st1) (med_id med) s" by simp
      then have here: "\<forall>s\<in>set (timings med). settled (userZone u) now (logs st') (med_id med) s"
        unfolding new using settled_append by blast
      have there: "\<forall>med\<in>set meds. \<forall>u. populateUser (users st) (med_user med) = Some u \<longrightarrow>
        (\<forall>s\<in>set (timings med). settled (userZone u) now (logs st') (med_id med) s)"
        using Cons.IH[OF rest] f1 by simp
      from here there Some show ?thesis by simp
    qed
  qed
qed

text \<open>Over settled slots a step writes nothing, and returns 0 unless the lookup is rejected.\<close>

lemma reapSlot_idle:
  assumes "settled (userZone u) now (logs st) (med_id med) s"
  shows "reapSlot flt now u med s st = (st, Inr 0) \<or>
         (flt (LogFindOne (med_id med) s) \<and>
          reapSlot flt now u med s st = (st, Inl (StoreFailure (LogFindOne (med_id med) s))))"
proof -
  from assms obtain d where d: "scheduledDateTime (userZone u) now s = Inr d"
    by (auto simp: settled_def)
  show ?thesis
  proof (cases "notAfter now (plusHours (userZone u) 2 d)")
    case True
    with d show ?thesis by (simp add: reapSlot_def)
  next
    case False
    with d have "overdue (userZone u) now s" by (simp add: overdue_def)
    with assms obtain l where
      "existingLog (logs st) (med_id med) s (startOfDay (userZone u) now) (endOfDay (userZone u) now) = Some l"
      by (auto simp: settled_def)
    with d False show ?thesis by (simp add: reapSlot_def)
  qed
qed

lemma reapSlots_idle:
  "\<forall>s\<in>set ss. settled (userZone u) now (logs st) (med_id med) s \<Longrightarrow>
     reapSlots flt now u med ss c st = (st, Inr c) \<or>
     ((\<exists>op. flt op) \<and> (\<exists>e. reapSlots flt now u med ss c st = (st, Inl e)))"
proof (induction ss arbitrary: c)
  case Nil
  then show ?case by simp
next
  case (Cons s ss)
  then have s: "settled (userZone u) now (logs st) (med_id med) s"
    and rest: "\<forall>s\<in>set ss. settled (userZone u) now (logs st) (med_id med) s" by simp_all
  from reapSlot_idle[OF s, of flt] show ?case
  proof
    assume "reapSlot flt now u med s st = (st, Inr 0)"
    with Cons.IH[OF rest, of c] show ?thesis by simp
  next
    assume "flt (LogFindOne (med_id med) s) \<and>
          reapSlot flt now u med s st = (st, Inl (StoreFailure (LogFindOne (med_id med) s)))"
    then show ?thesis by auto
  qed
qed

lemma reapMeds_idle:
  "\<forall>med\<in>set meds. \<forall>u. populateUser (users st) (med_user med) = Some u \<longrightarrow>
        (\<forall>s\<in>set (timings med). settled (userZone u) now (logs st) (med_id med) s) \<Longrightarrow>
     reapMeds flt now meds c st = (st, Inr c) \<or>
     ((\<exists>op. flt op) \<and> (\<exists>e. reapMeds flt now meds c st = (st, Inl e)))"
proof (induction meds)
  case Nil
  then show ?case by simp
next
  case (Cons med meds)
  then have ih: "reapMeds flt now meds c st = (st, Inr c) \<or>
     ((\<exists>op. flt op) \<and> (\<exists>e. reapMeds flt now meds c st = (st, Inl e)))" by simp
  show ?case
  proof (cases "populateUser (users st) (med_user med)")
    case None
    with ih show ?thesis by simp
  next
    case (Some u)
    with Cons.prems have "\<forall>s\<in>set (timings med). settled (userZone u) now (logs st) (med_id med) s"
      by simp
    from reapSlots_idle[OF this, of flt c] show ?thesis
    proof
      assume "reapSlots flt now u med (timings med) c st = (st, Inr c)"
      with ih Some show ?thesis by simp
    next
      assume "(\<exists>op. flt op) \<and> (\<exists>e. reapSlots flt now u med (timings med) c st = (st, Inl e))"
      with Some show ?thesis by auto
    qed
  qed
qed

text \<open>Being settled depends on the instant only through the local day and the overdue slots.\<close>

lemma settled_later:
  assumes "settled z now1 ls mid s"
      and "overdue z now2 s \<longrightarrow> overdue z now1 s \<and> localDay z now2 = localDay z now1"
  shows "settled z now2 ls mid s"
proof -
  from assms(1) have "\<exists>d. scheduledDateTime z now1 s = Inr d"
    by (simp add: settled_def)
  then have p: "\<exists>d. scheduledDateTime z now2 s = Inr d"
    unfolding scheduledDateTime_Inr_iff .
  show ?thesis
  proof (cases "overdue z now2 s")
    case False
    with p show ?thesis by (simp add: settled_def)
  next
    case True
    with assms(2) have o1: "overdue z now1 s" and d: "localDay z now2 = localDay z now1" by simp_all
    from d have "startOfDay z now2 = startOfDay z now1" "endOfDay z now2 = endOfDay z now1"
      by (simp_all add: startOfDay_localDay endOfDay_def)
    with assms(1) o1 p show ?thesis by (simp add: settled_def)
  qed
qed

text \<open>
  C6, as amended. Run a pass at \<open>now1\<close> that returns some count, then a second pass at
  \<open>now2\<close> with no recorder activity in between. If no slot of a swept medication falls past
  its grace deadline and no owner's local day changes between the two readings (as when both
  passes read the same instant), the second pass performs no writes, whatever the store
  rejects, and returns 0 when the store rejects nothing: its existence check finds the
  entries the first pass synthesized.
\<close>

theorem second_pass_idle:
  assumes "runAutomatedReaper flt1 now1 st = (st1, Inr n)"
      and "\<forall>med\<in>set (sweptMeds st). \<forall>u. populateUser (users st) (med_user med) = Some u \<longrightarrow>
             (\<forall>s\<in>set (timings med). overdue (userZone u) now2 s \<longrightarrow>
                overdue (userZone u) now1 s \<and> localDay (userZone u) now2 = localDay (userZone u) now1)"
  shows "fst (runAutomatedReaper flt2 now2 st1) = st1 \<and>
         runAutomatedReaper noFaults now2 st1 = (st1, Inr 0)"
proof -
  from assms(1) have nf: "\<not> flt1 MedicationFind" and
    run: "reapMeds flt1 now1 (sweptMeds st) 0 st = (st1, Inr n)"
    by (auto simp: runAutomatedReaper_def split: if_splits)
  note f = reapMeds_frame[OF run]
  have sw: "sweptMeds st1 = sweptMeds st" using f by (simp add: sweptMeds_def)
  have us: "users st1 = users st" using f by simp
  have "\<forall>med\<in>set (sweptMeds st1). \<forall>u. populateUser (users st1) (med_user med) = Some u \<longrightarrow>
        (\<forall>s\<in>set (timings med). settled (userZone u) now2 (logs st1) (med_id med) s)"
    unfolding sw us using reapMeds_settled[OF run] assms(2) settled_later by blast
  note idle = reapMeds_idle[OF this]
  have a: "fst (runAutomatedReaper flt2 now2 st1) = st1"
    using idle[of flt2 0] by (auto simp: runAutomatedReaper_def)
  have b: "runAutomatedReaper noFaults now2 st1 = (st1, Inr 0)"
    using idle[of noFaults 0] by (auto simp: runAutomatedReaper_def noFaults_def)
  from a b show ?thesis by blast
qed


text \<open>
  C6, witness: the pass over \<open>exStore\<close> at 17:30 returns 2; a pass one minute later writes
  nothing and returns 0.
\<close>

theorem second_pass_idle_witness:
  "runAutomatedReaper noFaults 907200000 exStore = (afterSweep, Inr 2) \<and>
   runAutomatedReaper noFaults 907260000 afterSweep = (afterSweep, Inr 0)"
proof -
  have "snd (runAutomatedReaper noFaults 907200000 exStore) = Inr 2"
    by (simp add: pass_defs slot_defs exStore_def exMed_def)
  then have run: "runAutomatedReaper noFaults 907200000 exStore = (afterSweep, Inr 2)"
    unfolding afterSweep_def by (metis prod.collapse)
  have h: "\<forall>med\<in>set (sweptMeds exStore). \<forall>u. populateUser (users exStore) (med_user med) = Some u \<longrightarrow>
             (\<forall>s\<in>set (timings med). overdue (userZone u) 907260000 s \<longrightarrow>
                overdue (userZone u) 907200000 s \<and>
                localDay (userZone u) 907260000 = localDay (userZone u) 907200000)"
    by (simp add: sweptMeds_def populateUser_def userZone_def overdue_def slot_defs exStore_def exMed_def)
  from second_pass_idle[OF run h, of noFaults] run show ?thesis by blast
qed

text \<open>
  C6, counterexample. The store is \<open>exStore\<close>, with no entries. A pass at 09:59 of the patient's
  day finds the slot 08:00 still in its grace window and returns 0; the next pass, two minutes
  later and with no recorder activity in between, finds it overdue, writes a missed entry and
  returns 1, not 0.
\<close>

theorem second_pass_counterexample:
  "snd (runAutomatedReaper noFaults 880140000 exStore) = Inr 0 \<and>
   snd (runAutomatedReaper noFaults 880260000 (fst (runAutomatedReaper noFaults 880140000 exStore))) = Inr 1 \<and>
   map log_scheduledTime
     (logs (fst (runAutomatedReaper noFaults 880260000 (fst (runAutomatedReaper noFaults 880140000 exStore)))))
     = [''08:00'']"
  by (simp add: pass_defs slot_defs exStore_def exMed_def)


section \<open>Failures in a pass\<close>




text \<open>A rejected lookup of an overdue slot is never passed over.\<close>

lemma reapSlot_fault:
  assumes "overdue (userZone u) now s" "flt (LogFindOne (med_id med) s)"
  shows "reapSlot flt now u med s st = (st, Inl (StoreFailure (LogFindOne (med_id med) s)))"
  using assms by (auto simp: reapSlot_def overdue_def split: sum.splits)

lemma reapSlots_fault:
  "s \<in> set ss \<Longrightarrow> overdue (userZone u) now s \<Longrightarrow> flt (LogFindOne (med_id med) s) \<Longrightarrow>
     \<exists>st' e. reapSlots flt now u med ss c st = (st', Inl e)"
proof (induction ss arbitrary: c st)
  case Nil
  then show ?case by simp
next
  case (Cons s' ss)
  obtain st1 r1 where s1: "reapSlot flt now u med s' st = (st1, r1)"
    by (cases "reapSlot flt now u med s' st") auto
  show ?case
  proof (cases r1)
    case (Inl e)
    with s1 show ?thesis by simp
  next
    case (Inr k)
    have "s' \<noteq> s"
    proof
      assume "s' = s"
      with reapSlot_fault[where flt=flt and st=st, OF Cons.prems(2,3)] s1 Inr show False by simp
    qed
    with Cons.prems have "s \<in> set ss" by simp
    from Cons.IH[OF this Cons.prems(2,3), of "c + k" st1] s1 Inr show ?thesis by simp
  qed
qed

lemma reapMeds_fault:
  "med \<in> set meds \<Longrightarrow> populateUser (users st) (med_user med) = Some u \<Longrightarrow>
   s \<in> set (timings med) \<Longrightarrow> overdue (userZone u) now s \<Longrightarrow> flt (LogFindOne (med_id med) s) \<Longrightarrow>
     \<exists>st' e. reapMeds flt now meds c st = (st', Inl e)"
proof (induction meds arbitrary: c st)
  case Nil
  then show ?case by simp
next
  case (Cons med' meds)
  show ?case
  proof (cases "populateUser (users st) (med_user med')")
    case None
    with Cons.prems(2) have "med' \<noteq> med" by auto
    with Cons.prems(1) have "med \<in> set meds" by simp
    from Cons.IH[OF this Cons.prems(2-5), of c] None show ?thesis by simp
  next
    case (Some u')
    obtain st1 r1 where s1: "reapSlots flt now u' med' (timings med') c st = (st1, r1)"
      by (cases "reapSlots flt now u' med' (timings med') c st") auto
    show ?thesis
    proof (cases r1)
      case (Inl e)
      with Some s1 show ?thesis by simp
    next
      case (Inr k)
      have "med' \<noteq> med"
      proof
        assume eq: "med' = med"
        with Some Cons.prems(2) have "u' = u" by simp
        with reapSlots_fault[where flt=flt and c=c and st=st, OF Cons.prems(3-5)] s1 Inr eq show False by simp
      qed
      with Cons.prems(1) have m: "med \<in> set meds" by simp
      have "users st1 = users st" using reapSlots_frame[OF s1] by simp
      with Cons.prems(2) have p: "populateUser (users st1) (med_user med) = Some u" by simp
      from Cons.IH[OF m p Cons.prems(3-5), of k] Some s1 Inr show ?thesis by simp
    qed
  qed
qed


lemma same_key_same_doc:
  "distinct (map f xs) \<Longrightarrow> x \<in> set xs \<Longrightarrow> y \<in> set xs \<Longrightarrow> f x = f y \<Longrightarrow> x = y"
  by (meson distinct_map inj_onD)






section \<open>The recorder\<close>

lemma findOneAndUpdate_None_iff:
  "(findOneAndUpdate p f xs = None) = (\<forall>x\<in>set xs. \<not> p x)"
  by (induction xs) (auto split: option.splits)

text \<open>An update changes the first matching document and nothing else.\<close>

lemma findOneAndUpdate_Some:
  "findOneAndUpdate p f xs = Some (y, ys) \<Longrightarrow>
     \<exists>pre x post. xs = pre @ x # post \<and> p x \<and> (\<forall>a\<in>set pre. \<not> p a) \<and>
        y = f x \<and> ys = pre @ f x # post"
proof (induction xs arbitrary: ys)
  case Nil
  then show ?case by simp
next
  case (Cons a xs)
  show ?case
  proof (cases "p a")
    case True
    with Cons.prems have "y = f a" "ys = f a # xs" by auto
    with True show ?thesis by (intro exI[of _ "[]"] exI[of _ a] exI[of _ xs]) simp
  next
    case False
    with Cons.prems obtain zs where zs: "findOneAndUpdate p f xs = Some (y, zs)" "ys = a # zs"
      by (auto split: option.splits)
    from Cons.IH[OF zs(1)] obtain pre x post where
      h: "xs = pre @ x # post" "p x" "\<forall>a\<in>set pre. \<not> p a" "y = f x" "zs = pre @ f x # post"
      by blast
    with False zs(2) show ?thesis
      by (intro exI[of _ "a # pre"] exI[of _ x] exI[of _ post]) simp
  qed
qed

lemma recordEvent_frame:
  "users (recordEvent flt now uid mid ty meta st) = users st \<and>
   medications (recordEvent flt now uid mid ty meta st) = medications st \<and>
   logs (recordEvent flt now uid mid ty meta st) = logs st \<and>
   connections (recordEvent flt now uid mid ty meta st) = connections st \<and>
   alertQueue (recordEvent flt now uid mid ty meta st) = alertQueue st"
  by (simp add: recordEvent_def)

lemma recordEvent_events:
  "\<exists>evs. events (recordEvent flt now uid mid ty meta st) = events st @ evs \<and>
     (\<forall>e\<in>set evs. \<not> flt (EventCreate (eventType e)))"
proof (cases "flt (EventCreate ty)")
  case True
  then show ?thesis by (simp add: recordEvent_def)
next
  case False
  then show ?thesis
    by (intro exI[of _ "[\<lparr> ev_user = uid, ev_medication = mid, eventType = ty,
                ev_metadata = meta, ev_timestamp = now \<rparr>]"]) (simp add: recordEvent_def)
qed

text \<open>What the side effects leave when they do not throw.\<close>

lemma doseEffects_Inr:
  assumes "doseEffects flt now req a d st = Inr st'"
  shows "logs st' = logs st \<and> users st' = users st \<and> connections st' = connections st \<and>
         alertQueue st' = alertQueue st \<and>
         (\<exists>evs. events st' = events st @ evs \<and> (\<forall>e\<in>set evs. \<not> flt (EventCreate (eventType e)))) \<and>
         (if req_status req = ''taken'' \<or> req_status req = []
          then \<not> flt (MedicationUpdate (req_medId req)) \<and>
               (\<exists>pre m post. medications st = pre @ m # post \<and>
                  med_id m = req_medId req \<and> med_user m = user_id (req_user req) \<and> \<not> isDeleted m \<and>
                  medications st' = pre @ m\<lparr>remainingQuantity := inc (- 1) (remainingQuantity m)\<rparr> # post)
          else medications st' = medications st)"
proof (cases "req_status req = ''taken'' \<or> req_status req = []")
  case False
  show ?thesis
  proof (cases "req_status req = ''missed''")
    case True
    with False assms have st': "st' = recordEvent flt now (user_id (req_user req)) (req_medId req)
               ''DOSE_MISSED'' (SlotMeta (req_scheduledTime req)) st"
      by (simp add: doseEffects_def)
    show ?thesis unfolding st' using False recordEvent_frame recordEvent_events by simp
  next
    case nm: False
    with False assms have "st' = st" by (simp add: doseEffects_def)
    with False show ?thesis by simp
  qed
next
  case True
  with assms have nf: "\<not> flt (MedicationUpdate (req_medId req))"
    by (auto simp: doseEffects_def split: if_splits)
  let ?p = "\<lambda>m. med_id m = req_medId req \<and> med_user m = user_id (req_user req) \<and> \<not> isDeleted m"
  let ?f = "\<lambda>m. m\<lparr>remainingQuantity := inc (- 1) (remainingQuantity m)\<rparr>"
  from True nf assms obtain medication meds where
    fu: "findOneAndUpdate ?p ?f (medications st) = Some (medication, meds)"
    by (auto simp: doseEffects_def split: option.splits if_splits)
  from findOneAndUpdate_Some[OF fu] obtain pre m post where
    sp: "medications st = pre @ m # post" "?p m" "medication = ?f m" "meds = pre @ ?f m # post"
    by blast
  define st1 where "st1 = recordEvent flt now (user_id (req_user req)) (req_medId req)
                                (if a = ''late'' then ''DOSE_LATE'' else ''DOSE_TAKEN'')
                                (DoseMeta (req_scheduledTime req) d)
                                (st\<lparr>medications := meds\<rparr>)"
  have f1: "logs st1 = logs st" "users st1 = users st" "connections st1 = connections st"
    "alertQueue st1 = alertQueue st" "medications st1 = meds"
    unfolding st1_def using recordEvent_frame by simp_all
  obtain evs1 where e1: "events st1 = events st @ evs1" "\<forall>e\<in>set evs1. \<not> flt (EventCreate (eventType e))"
    unfolding st1_def
    using recordEvent_events[of flt now "user_id (req_user req)" "req_medId req"
        "if a = ''late'' then ''DOSE_LATE'' else ''DOSE_TAKEN''" "DoseMeta (req_scheduledTime req) d"
        "st\<lparr>medications := meds\<rparr>"]
    by auto
  have rq: "remainingQuantity medication = Some ((case remainingQuantity m of None \<Rightarrow> 0 | Some n \<Rightarrow> n) - 1)"
    using sp(3) by (simp add: inc_def)
  have st'_cases: "st' = st1 \<or> st' = recordEvent flt now (user_id (req_user req)) (req_medId req)
                     ''INVENTORY_LOW'' (StockMeta ((case remainingQuantity m of None \<Rightarrow> 0 | Some n \<Rightarrow> n) - 1)) st1"
    using assms True nf fu rq unfolding doseEffects_def st1_def
    by (auto simp: Let_def split: if_splits)
  from st'_cases have main: "logs st' = logs st \<and> users st' = users st \<and> connections st' = connections st \<and>
         alertQueue st' = alertQueue st \<and> medications st' = meds \<and>
         (\<exists>evs. events st' = events st @ evs \<and> (\<forall>e\<in>set evs. \<not> flt (EventCreate (eventType e))))"
  proof
    assume "st' = st1"
    with f1 e1 show ?thesis by blast
  next
    assume h: "st' = recordEvent flt now (user_id (req_user req)) (req_medId req)
                     ''INVENTORY_LOW'' (StockMeta ((case remainingQuantity m of None \<Rightarrow> 0 | Some n \<Rightarrow> n) - 1)) st1"
    obtain evs2 where e2: "events st' = events st1 @ evs2" "\<forall>e\<in>set evs2. \<not> flt (EventCreate (eventType e))"
      unfolding h using recordEvent_events by blast
    have "events st' = events st @ (evs1 @ evs2)" using e1 e2 by simp
    moreover have "\<forall>e\<in>set (evs1 @ evs2). \<not> flt (EventCreate (eventType e))" using e1 e2 by auto
    ultimately have "\<exists>evs. events st' = events st @ evs \<and> (\<forall>e\<in>set evs. \<not> flt (EventCreate (eventType e)))"
      by blast
    then show ?thesis unfolding h using recordEvent_frame f1 by simp
  qed
  have "\<exists>pre m post. medications st = pre @ m # post \<and>
                  med_id m = req_medId req \<and> med_user m = user_id (req_user req) \<and> \<not> isDeleted m \<and>
                  medications st' = pre @ m\<lparr>remainingQuantity := inc (- 1) (remainingQuantity m)\<rparr> # post"
    using sp main by blast
  with main True nf show ?thesis by simp
qed

text \<open>The two ends of a recorder call.\<close>

lemma logDose_cases:
  assumes "logDose flt now req st = (st', resp)"
  obtains
    (rejected) e where "st' = st" "resp = BadRequest e"
  | (committed) a d where
      "resp = Created (newLog now req a d)"
      "doseEffects flt now req a d (st\<lparr>logs := logs st @ [newLog now req a d]\<rparr>) = Inr st'"
      "\<not> flt (LogFindOne (req_medId req) (req_scheduledTime req))"
      "\<not> flt (LogCreate (req_medId req) (req_scheduledTime req))"
      "\<not> flt CommitTransaction"
proof (cases "flt (LogFindOne (req_medId req) (req_scheduledTime req))")
  case True
  with assms have "st' = st" "resp = BadRequest (StoreFailure (LogFindOne (req_medId req) (req_scheduledTime req)))"
    by (simp_all add: logDose_def)
  then show ?thesis by (rule rejected)
next
  case nf: False
  show ?thesis
  proof (cases "duplicateLog (logs st) (user_id (req_user req)) (req_medId req) (req_scheduledTime req)
                (now - 10 * msPerMinute) \<noteq> None \<and>
              (req_status req = ''taken'' \<or> req_status req = [])")
    case True
    with nf assms have "st' = st" "resp = BadRequest DuplicateDose"
      by (simp_all add: logDose_def)
    then show ?thesis by (rule rejected)
  next
    case nd: False
    show ?thesis
    proof (cases "classify (userZone (req_user req)) now (req_scheduledTime req) (req_status req)")
      case (Inl e)
      with nf nd assms have "st' = st" "resp = BadRequest e"
        by (auto simp: logDose_def)
      then show ?thesis by (rule rejected)
    next
      case (Inr ad)
      obtain a d where ad: "ad = (a, d)" by (cases ad) auto
      show ?thesis
      proof (cases "validLog (newLog now req a d)")
        case False
        with nf nd Inr ad assms have "st' = st" "resp = BadRequest ValidationFailed"
          by (auto simp: logDose_def)
        then show ?thesis by (rule rejected)
      next
        case v: True
        show ?thesis
        proof (cases "flt (LogCreate (req_medId req) (req_scheduledTime req))")
          case True
          with v nf nd Inr ad assms have "st' = st"
            "resp = BadRequest (StoreFailure (LogCreate (req_medId req) (req_scheduledTime req)))"
            by (auto simp: logDose_def)
          then show ?thesis by (rule rejected)
        next
          case nc: False
          show ?thesis
          proof (cases "doseEffects flt now req a d (st\<lparr>logs := logs st @ [newLog now req a d]\<rparr>)")
            case (Inl e)
            with nc v nf nd Inr ad assms have "st' = st" "resp = BadRequest e"
              by (auto simp: logDose_def)
            then show ?thesis by (rule rejected)
          next
            case eff: (Inr st1)
            show ?thesis
            proof (cases "flt CommitTransaction")
              case True
              with eff nc v nf nd Inr ad assms have "st' = st"
                "resp = BadRequest (StoreFailure CommitTransaction)"
                by (auto simp: logDose_def)
              then show ?thesis by (rule rejected)
            next
              case False
              with eff nc v nf nd Inr ad assms have "st' = st1" "resp = Created (newLog now req a d)"
                by (auto simp: logDose_def)
              with eff nf nc False show ?thesis by (intro committed[of a d]) simp_all
            qed
          qed
        qed
      qed
    qed
  qed
qed



text \<open>
  Rejected audit inserts change nothing but the audit trail: the side effects throw the same
  error or leave the same store, without the events whose insert was rejected.
\<close>

lemma doseEffects_audit:
  "doseEffects flt now req a d st =
     (case doseEffects (auditAccepted flt) now req a d st of
        Inl e \<Rightarrow> Inl e
      | Inr s0 \<Rightarrow>
          Inr (s0\<lparr>events := events st @
                   filter (\<lambda>e. \<not> flt (EventCreate (eventType e)))
                     (drop (length (events st)) (events s0))\<rparr>))"
  by (auto simp: doseEffects_def recordEvent_def auditAccepted_def Let_def split: option.splits)

lemma logDose_audit:
  "snd (logDose (auditAccepted flt) now req st) = snd (logDose flt now req st) \<and>
   fst (logDose flt now req st) =
     (fst (logDose (auditAccepted flt) now req st))
       \<lparr>events := events st @
          filter (\<lambda>e. \<not> flt (EventCreate (eventType e)))
            (drop (length (events st)) (events (fst (logDose (auditAccepted flt) now req st))))\<rparr>"
proof -
  have ops: "auditAccepted flt (LogFindOne i x) = flt (LogFindOne i x)"
    "auditAccepted flt (LogCreate i x) = flt (LogCreate i x)"
    "auditAccepted flt CommitTransaction = flt CommitTransaction" for i x
    by (simp_all add: auditAccepted_def)
  show ?thesis
  proof (cases "classify (userZone (req_user req)) now (req_scheduledTime req) (req_status req)")
    case (Inl e)
    then show ?thesis by (simp add: logDose_def ops)
  next
    case c: (Inr ad)
    obtain a d where ad: "ad = (a, d)" by (cases ad) auto
    note eff = doseEffects_audit[of flt now req a d "st\<lparr>logs := logs st @ [newLog now req a d]\<rparr>"]
    show ?thesis
    proof (cases "doseEffects (auditAccepted flt) now req a d (st\<lparr>logs := logs st @ [newLog now req a d]\<rparr>)")
      case (Inl e)
      with eff have "doseEffects flt now req a d (st\<lparr>logs := logs st @ [newLog now req a d]\<rparr>) = Inl e"
        by simp
      with Inl c ad show ?thesis by (simp add: logDose_def ops)
    next
      case (Inr s0)
      with eff have "doseEffects flt now req a d (st\<lparr>logs := logs st @ [newLog now req a d]\<rparr>) =
          Inr (s0\<lparr>events := events st @
                   filter (\<lambda>e. \<not> flt (EventCreate (eventType e)))
                     (drop (length (events st)) (events s0))\<rparr>)"
        by simp
      with Inr c ad show ?thesis by (simp add: logDose_def ops)
    qed
  qed
qed

text \<open>
  C2, as amended. In the recorder the ledger write and the inventory decrement commit or roll
  back together: a call that answers with an error leaves the whole store as it was; a
  rejected duplicate lookup, ledger insert, inventory update (of a taken report) or commit
  makes the call answer with an error; and a call that answers with the new entry has
  appended exactly that entry, has decremented the stock of one matching medication if the
  report is taken (and changed no medication otherwise), and has appended only audit events
  whose insert was not rejected. A rejected audit insert does not by itself abort the call:
  \<open>recordEvent\<close> logs it and the call goes on to the commit. For the same outcomes of the
  other calls, the commit included, the answer, the ledger, the inventory and all else but the
  audit trail are what they are when every audit insert is accepted, and the audit trail lacks
  exactly the events whose insert was rejected.
\<close>

theorem recorder_commits_or_rolls_back:
  assumes "logDose flt now req st = (st', resp)"
  shows "((\<exists>e. resp = BadRequest e) \<longrightarrow> st' = st)
   \<and> (flt (LogFindOne (req_medId req) (req_scheduledTime req)) \<or>
       flt (LogCreate (req_medId req) (req_scheduledTime req)) \<or>
       flt CommitTransaction \<or>
       ((req_status req = ''taken'' \<or> req_status req = []) \<and> flt (MedicationUpdate (req_medId req)))
       \<longrightarrow> (\<exists>e. resp = BadRequest e))
   \<and> (\<forall>l. resp = Created l \<longrightarrow>
         logs st' = logs st @ [l] \<and>
         (\<exists>evs. events st' = events st @ evs \<and> (\<forall>e\<in>set evs. \<not> flt (EventCreate (eventType e)))) \<and>
         (if req_status req = ''taken'' \<or> req_status req = []
          then \<exists>pre m post. medications st = pre @ m # post \<and> med_id m = req_medId req \<and>
                 medications st' = pre @ m\<lparr>remainingQuantity := inc (- 1) (remainingQuantity m)\<rparr> # post
          else medications st' = medications st))
   \<and> snd (logDose (auditAccepted flt) now req st) = resp
   \<and> st' = (fst (logDose (auditAccepted flt) now req st))
              \<lparr>events := events st @
                 filter (\<lambda>e. \<not> flt (EventCreate (eventType e)))
                   (drop (length (events st)) (events (fst (logDose (auditAccepted flt) now req st))))\<rparr>"
proof -
  have 4: "snd (logDose (auditAccepted flt) now req st) = resp
     \<and> st' = (fst (logDose (auditAccepted flt) now req st))
              \<lparr>events := events st @
                 filter (\<lambda>e. \<not> flt (EventCreate (eventType e)))
                   (drop (length (events st)) (events (fst (logDose (auditAccepted flt) now req st))))\<rparr>"
    using logDose_audit[of flt now req st] unfolding assms by simp
  from assms have "((\<exists>e. resp = BadRequest e) \<longrightarrow> st' = st)
   \<and> (flt (LogFindOne (req_medId req) (req_scheduledTime req)) \<or>
       flt (LogCreate (req_medId req) (req_scheduledTime req)) \<or>
       flt CommitTransaction \<or>
       ((req_status req = ''taken'' \<or> req_status req = []) \<and> flt (MedicationUpdate (req_medId req)))
       \<longrightarrow> (\<exists>e. resp = BadRequest e))
   \<and> (\<forall>l. resp = Created l \<longrightarrow>
         logs st' = logs st @ [l] \<and>
         (\<exists>evs. events st' = events st @ evs \<and> (\<forall>e\<in>set evs. \<not> flt (EventCreate (eventType e)))) \<and>
         (if req_status req = ''taken'' \<or> req_status req = []
          then \<exists>pre m post. medications st = pre @ m # post \<and> med_id m = req_medId req \<and>
                 medications st' = pre @ m\<lparr>remainingQuantity := inc (- 1) (remainingQuantity m)\<rparr> # post
          else medications st' = medications st))"
  proof (cases rule: logDose_cases)
    case (rejected e)
    then show ?thesis by simp
  next
    case (committed a d)
    note eff = doseEffects_Inr[OF committed(2)]
    have l: "logs st' = logs st @ [newLog now req a d]" using eff by simp
    have ev: "\<exists>evs. events st' = events st @ evs \<and> (\<forall>e\<in>set evs. \<not> flt (EventCreate (eventType e)))"
      using eff by simp
    have md: "if req_status req = ''taken'' \<or> req_status req = []
            then \<not> flt (MedicationUpdate (req_medId req)) \<and>
                 (\<exists>pre m post. medications st = pre @ m # post \<and> med_id m = req_medId req \<and>
                   medications st' = pre @ m\<lparr>remainingQuantity := inc (- 1) (remainingQuantity m)\<rparr> # post)
            else medications st' = medications st"
    proof (cases "req_status req = ''taken'' \<or> req_status req = []")
      case True
      with eff have "\<not> flt (MedicationUpdate (req_medId req))" and
        "\<exists>pre m post. medications (st\<lparr>logs := logs st @ [newLog now req a d]\<rparr>) = pre @ m # post \<and>
                    med_id m = req_medId req \<and> med_user m = user_id (req_user req) \<and> \<not> isDeleted m \<and>
                    medications st' = pre @ m\<lparr>remainingQuantity := inc (- 1) (remainingQuantity m)\<rparr> # post"
        by simp_all
      then have "\<not> flt (MedicationUpdate (req_medId req)) \<and>
                 (\<exists>pre m post. medications st = pre @ m # post \<and> med_id m = req_medId req \<and>
                   medications st' = pre @ m\<lparr>remainingQuantity := inc (- 1) (remainingQuantity m)\<rparr> # post)"
        by auto
      with True show ?thesis by simp
    next
      case False
      with eff show ?thesis by simp
    qed
    have 1: "(\<exists>e. resp = BadRequest e) \<longrightarrow> st' = st" using committed(1) by simp
    have 2: "flt (LogFindOne (req_medId req) (req_scheduledTime req)) \<or>
         flt (LogCreate (req_medId req) (req_scheduledTime req)) \<or>
         flt CommitTransaction \<or>
         ((req_status req = ''taken'' \<or> req_status req = []) \<and> flt (MedicationUpdate (req_medId req)))
         \<longrightarrow> (\<exists>e. resp = BadRequest e)"
      using committed(3-5) md by auto
    have 3: "\<forall>l. resp = Created l \<longrightarrow>
           logs st' = logs st @ [l] \<and>
           (\<exists>evs. events st' = events st @ evs \<and> (\<forall>e\<in>set evs. \<not> flt (EventCreate (eventType e)))) \<and>
           (if req_status req = ''taken'' \<or> req_status req = []
            then \<exists>pre m post. medications st = pre @ m # post \<and> med_id m = req_medId req \<and>
                   medications st' = pre @ m\<lparr>remainingQuantity := inc (- 1) (remainingQuantity m)\<rparr> # post
            else medications st' = medications st)"
      using committed(1) l ev md by (cases "req_status req = ''taken'' \<or> req_status req = []") simp_all
    from 1 2 3 show ?thesis by blast
  qed
  with 4 show ?thesis by blast
qed

text \<open>
  C2, witness: with every audit insert rejected, the taken report for medication 1 still
  appends its entry, and is answered as it is when the audit inserts are accepted; with the
  commit rejected, the store is left as it was.
\<close>

theorem recorder_commits_or_rolls_back_witness:
  "logs (fst (logDose failAudit 907500000 (doseRequest 1 ''08:00'' ''taken'') exStore))
     = logs exStore @ [newLog 907500000 (doseRequest 1 ''08:00'' ''taken'') ''late'' 575]
   \<and> snd (logDose (auditAccepted failAudit) 907500000 (doseRequest 1 ''08:00'' ''taken'') exStore)
     = Created (newLog 907500000 (doseRequest 1 ''08:00'' ''taken'') ''late'' 575)
   \<and> fst (logDose (\<lambda>op. op = CommitTransaction) 907500000 (doseRequest 1 ''08:00'' ''taken'') exStore)
     = exStore"
proof -
  obtain st' resp where run:
    "logDose failAudit 907500000 (doseRequest 1 ''08:00'' ''taken'') exStore = (st', resp)"
    by (cases "logDose failAudit 907500000 (doseRequest 1 ''08:00'' ''taken'') exStore") auto
  have "snd (logDose failAudit 907500000 (doseRequest 1 ''08:00'' ''taken'') exStore)
      = Created (newLog 907500000 (doseRequest 1 ''08:00'' ''taken'') ''late'' 575)"
    by (simp add: dose_defs slot_defs userZone_def failAudit_def exStore_def exMed_def)
  with run have resp: "resp = Created (newLog 907500000 (doseRequest 1 ''08:00'' ''taken'') ''late'' 575)"
    by simp
  from recorder_commits_or_rolls_back[OF run]
  have "\<forall>l. resp = Created l \<longrightarrow> logs st' = logs exStore @ [l]"
    and acc: "snd (logDose (auditAccepted failAudit) 907500000 (doseRequest 1 ''08:00'' ''taken'') exStore) = resp"
    by blast+
  with resp have "logs st' = logs exStore @ [newLog 907500000 (doseRequest 1 ''08:00'' ''taken'') ''late'' 575]"
    by blast
  with run have a: "logs (fst (logDose failAudit 907500000 (doseRequest 1 ''08:00'' ''taken'') exStore))
     = logs exStore @ [newLog 907500000 (doseRequest 1 ''08:00'' ''taken'') ''late'' 575]"
    by simp
  obtain st2 resp2 where run2:
    "logDose (\<lambda>op. op = CommitTransaction) 907500000 (doseRequest 1 ''08:00'' ''taken'') exStore = (st2, resp2)"
    by (cases "logDose (\<lambda>op. op = CommitTransaction) 907500000 (doseRequest 1 ''08:00'' ''taken'') exStore") auto
  from recorder_commits_or_rolls_back[OF run2]
  have "(\<exists>e. resp2 = BadRequest e) \<longrightarrow> st2 = exStore" and "\<exists>e. resp2 = BadRequest e"
    by blast+
  then have "st2 = exStore" by blast
  with run2 have b: "fst (logDose (\<lambda>op. op = CommitTransaction) 907500000 (doseRequest 1 ''08:00'' ''taken'') exStore)
     = exStore" by simp
  from a acc resp b show ?thesis by blast
qed

text \<open>
  C2, counterexample. The audit insert of the taken report fails. The call does not answer
  with an error: it answers with the new entry, and the entry and the decrement of the stock
  from 10 to 9 are visible, without the audit event that a call with no failure leaves.
\<close>

theorem audit_failure_counterexample:
  "failAudit (EventCreate ''DOSE_LATE'')
   \<and> snd (logDose failAudit 907500000 (doseRequest 1 ''08:00'' ''taken'') exStore)
       = Created (newLog 907500000 (doseRequest 1 ''08:00'' ''taken'') ''late'' 575)
   \<and> map log_status (logs (fst (logDose failAudit 907500000 (doseRequest 1 ''08:00'' ''taken'') exStore)))
       = [''taken'']
   \<and> map remainingQuantity (medications exStore) = [Some 10]
   \<and> map remainingQuantity
        (medications (fst (logDose failAudit 907500000 (doseRequest 1 ''08:00'' ''taken'') exStore)))
       = [Some 9]
   \<and> events (fst (logDose failAudit 907500000 (doseRequest 1 ''08:00'' ''taken'') exStore)) = []
   \<and> map eventType (events (fst (logDose noFaults 907500000 (doseRequest 1 ''08:00'' ''taken'') exStore)))
       = [''DOSE_LATE'']"
  by (simp add: dose_defs slot_defs userZone_def failAudit_def noFaults_def exStore_def exMed_def)

text \<open>
  C3, as amended. A recorder call that answers with the entry of a taken report has
  decremented \<open>remainingQuantity\<close> of one medication (of that id, of the caller, not deleted)
  by exactly 1, whatever its value, and changed no other medication: there is no lower bound.
  A refill that finds its medication adds \<open>refillAmount\<close> to \<open>totalQuantity\<close> and
  \<open>remainingQuantity\<close> of that medication alone.
\<close>

theorem taken_dose_decrements_stock:
  "(logDose flt now req st = (st', Created l) \<and> (req_status req = ''taken'' \<or> req_status req = [])
      \<longrightarrow> (\<exists>pre m post. medications st = pre @ m # post \<and>
              med_id m = req_medId req \<and> med_user m = user_id (req_user req) \<and> \<not> isDeleted m \<and>
              medications st' =
                pre @ m\<lparr>remainingQuantity :=
                           Some ((case remainingQuantity m of None \<Rightarrow> 0 | Some q \<Rightarrow> q) - 1)\<rparr> # post))
   \<and> (refillMedication userId medId refillAmount st = (st'', Some updatedMed)
      \<longrightarrow> (\<exists>pre m post. medications st = pre @ m # post \<and>
              med_id m = medId \<and> med_user m = userId \<and> \<not> isDeleted m \<and>
              medications st'' =
                pre @ m\<lparr>totalQuantity :=
                           Some ((case totalQuantity m of None \<Rightarrow> 0 | Some q \<Rightarrow> q) + refillAmount),
                         remainingQuantity :=
                           Some ((case remainingQuantity m of None \<Rightarrow> 0 | Some q \<Rightarrow> q) + refillAmount)\<rparr>
                  # post))"
proof -
  have a: "\<exists>pre m post. medications st = pre @ m # post \<and>
              med_id m = req_medId req \<and> med_user m = user_id (req_user req) \<and> \<not> isDeleted m \<and>
              medications st' =
                pre @ m\<lparr>remainingQuantity :=
                           Some ((case remainingQuantity m of None \<Rightarrow> 0 | Some q \<Rightarrow> q) - 1)\<rparr> # post"
    if run: "logDose flt now req st = (st', Created l)"
      and tk: "req_status req = ''taken'' \<or> req_status req = []"
    using run
  proof (cases rule: logDose_cases)
    case (rejected e)
    then show ?thesis by simp
  next
    case (committed a d)
    from doseEffects_Inr[OF committed(2)] tk
    have "\<exists>pre m post. medications (st\<lparr>logs := logs st @ [newLog now req a d]\<rparr>) = pre @ m # post \<and>
                  med_id m = req_medId req \<and> med_user m = user_id (req_user req) \<and> \<not> isDeleted m \<and>
                  medications st' = pre @ m\<lparr>remainingQuantity := inc (- 1) (remainingQuantity m)\<rparr> # post"
      by simp
    then show ?thesis by (auto simp: inc_def)
  qed
  have b: "\<exists>pre m post. medications st = pre @ m # post \<and>
              med_id m = medId \<and> med_user m = userId \<and> \<not> isDeleted m \<and>
              medications st'' =
                pre @ m\<lparr>totalQuantity :=
                           Some ((case totalQuantity m of None \<Rightarrow> 0 | Some q \<Rightarrow> q) + refillAmount),
                         remainingQuantity :=
                           Some ((case remainingQuantity m of None \<Rightarrow> 0 | Some q \<Rightarrow> q) + refillAmount)\<rparr>
                  # post"
    if run: "refillMedication userId medId refillAmount st = (st'', Some updatedMed)"
  proof -
    let ?p = "\<lambda>m. med_id m = medId \<and> med_user m = userId \<and> \<not> isDeleted m"
    let ?f = "\<lambda>m. m\<lparr>totalQuantity := inc refillAmount (totalQuantity m),
                     remainingQuantity := inc refillAmount (remainingQuantity m)\<rparr>"
    from run obtain meds where fu: "findOneAndUpdate ?p ?f (medications st) = Some (updatedMed, meds)"
      and st'': "st'' = st\<lparr>medications := meds\<rparr>"
      by (auto simp: refillMedication_def split: option.splits)
    from findOneAndUpdate_Some[OF fu] obtain pre m post where
      "medications st = pre @ m # post" "?p m" "meds = pre @ ?f m # post"
      by blast
    with st'' show ?thesis by (auto simp: inc_def)
  qed
  from a b show ?thesis by blast
qed

text \<open>
  C3, witness: the taken report for medication 2 of \<open>exStore2\<close> decrements the stock of that
  medication.
\<close>

theorem taken_dose_decrements_stock_witness:
  "\<exists>pre m post. medications exStore2 = pre @ m # post \<and> med_id m = 2 \<and>
      medications (fst (logDose noFaults 907500000 (doseRequest 2 ''09:00'' ''taken'') exStore2)) =
        pre @ m\<lparr>remainingQuantity := Some ((case remainingQuantity m of None \<Rightarrow> 0 | Some q \<Rightarrow> q) - 1)\<rparr> # post"
proof -
  have "snd (logDose noFaults 907500000 (doseRequest 2 ''09:00'' ''taken'') exStore2)
      = Created (newLog 907500000 (doseRequest 2 ''09:00'' ''taken'') ''late'' 515)"
    by (simp add: dose_defs slot_defs userZone_def noFaults_def exStore2_def exStore_def exMed_def
        exMed2_def exMed3_def)
  then have run: "logDose noFaults 907500000 (doseRequest 2 ''09:00'' ''taken'') exStore2
      = (fst (logDose noFaults 907500000 (doseRequest 2 ''09:00'' ''taken'') exStore2),
         Created (newLog 907500000 (doseRequest 2 ''09:00'' ''taken'') ''late'' 515))"
    by (metis prod.collapse)
  have tk: "req_status (doseRequest 2 ''09:00'' ''taken'') = ''taken''"
    by (simp add: doseRequest_def)
  have id: "req_medId (doseRequest 2 ''09:00'' ''taken'') = 2"
    by (simp add: doseRequest_def)
  from taken_dose_decrements_stock[of noFaults 907500000 "doseRequest 2 ''09:00'' ''taken''" exStore2] run tk
  have "\<exists>pre m post. medications exStore2 = pre @ m # post \<and>
              med_id m = req_medId (doseRequest 2 ''09:00'' ''taken'') \<and>
              med_user m = user_id (req_user (doseRequest 2 ''09:00'' ''taken'')) \<and> \<not> isDeleted m \<and>
              medications (fst (logDose noFaults 907500000 (doseRequest 2 ''09:00'' ''taken'') exStore2)) =
                pre @ m\<lparr>remainingQuantity :=
                           Some ((case remainingQuantity m of None \<Rightarrow> 0 | Some q \<Rightarrow> q) - 1)\<rparr> # post"
    by blast
  then show ?thesis unfolding id by blast
qed

text \<open>
  C3, counterexample. Medication 2 has \<open>remainingQuantity = 0\<close>. The recorder accepts a taken
  report for it and the quantity becomes -1.
\<close>

theorem negative_stock_counterexample:
  "map remainingQuantity (medications exStore2) = [Some 10, Some 0, Some 20]
   \<and> snd (logDose noFaults 907500000 (doseRequest 2 ''09:00'' ''taken'') exStore2)
       = Created (newLog 907500000 (doseRequest 2 ''09:00'' ''taken'') ''late'' 515)
   \<and> map remainingQuantity
        (medications (fst (logDose noFaults 907500000 (doseRequest 2 ''09:00'' ''taken'') exStore2)))
       = [Some 10, Some (- 1), Some 20]"
  by (simp add: dose_defs slot_defs userZone_def noFaults_def exStore2_def exStore_def exMed_def
      exMed2_def exMed3_def)

text \<open>
  C4, as amended. For a taken report (status taken or absent), recording a dose against a
  medication that is soft-deleted, not found or not the caller's fails with an error and
  leaves the whole store, the ledger included, unchanged; when nothing else fails first (no
  rejected call, no recent duplicate, a well-formed slot and entry) the error is the state
  error "Medication not found or unavailable". Missed and skipped reports never look the
  medication up: see the counterexample.
\<close>

theorem taken_dose_needs_medication:
  assumes "req_status req = ''taken'' \<or> req_status req = []"
      and "\<forall>m\<in>set (medications st).
             \<not> (med_id m = req_medId req \<and> med_user m = user_id (req_user req) \<and> \<not> isDeleted m)"
  shows "(\<exists>e. logDose flt now req st = (st, BadRequest e))
     \<and> (duplicateLog (logs st) (user_id (req_user req)) (req_medId req) (req_scheduledTime req)
           (now - 10 * msPerMinute) = None \<and>
        classify (userZone (req_user req)) now (req_scheduledTime req) (req_status req) = Inr (a, d) \<and>
        validLog (newLog now req a d)
        \<longrightarrow> logDose noFaults now req st = (st, BadRequest MedicationUnavailable))"
proof -
  obtain st' resp where run: "logDose flt now req st = (st', resp)"
    by (cases "logDose flt now req st") auto
  from run have 1: "\<exists>e. logDose flt now req st = (st, BadRequest e)"
  proof (cases rule: logDose_cases)
    case (rejected e)
    with run show ?thesis by simp
  next
    case (committed a d)
    from doseEffects_Inr[OF committed(2)] assms(1)
    obtain pre m post where "medications (st\<lparr>logs := logs st @ [newLog now req a d]\<rparr>) = pre @ m # post"
      "med_id m = req_medId req \<and> med_user m = user_id (req_user req) \<and> \<not> isDeleted m"
      by auto
    then have "m \<in> set (medications st)" by simp
    with assms(2) \<open>med_id m = req_medId req \<and> med_user m = user_id (req_user req) \<and> \<not> isDeleted m\<close>
    show ?thesis by blast
  qed
  have none: "findOneAndUpdate
       (\<lambda>m. med_id m = req_medId req \<and> med_user m = user_id (req_user req) \<and> \<not> isDeleted m) f
       (medications st) = None" for f
    using assms(2) by (simp add: findOneAndUpdate_None_iff)
  have 2: "logDose noFaults now req st = (st, BadRequest MedicationUnavailable)"
    if "duplicateLog (logs st) (user_id (req_user req)) (req_medId req) (req_scheduledTime req)
           (now - 10 * msPerMinute) = None"
       "classify (userZone (req_user req)) now (req_scheduledTime req) (req_status req) = Inr (a, d)"
       "validLog (newLog now req a d)"
    using that assms(1) none by (simp add: logDose_def doseEffects_def noFaults_def)
  from 1 2 show ?thesis by blast
qed

text \<open>
  C4, witness: a taken report for the soft-deleted medication 3 is answered with the state
  error and leaves \<open>exStore2\<close> as it is.
\<close>

theorem taken_dose_needs_medication_witness:
  "logDose noFaults 907500000 (doseRequest 3 ''09:00'' ''taken'') exStore2
     = (exStore2, BadRequest MedicationUnavailable)"
proof -
  have 1: "req_status (doseRequest 3 ''09:00'' ''taken'') = ''taken'' \<or>
           req_status (doseRequest 3 ''09:00'' ''taken'') = []"
    by (simp add: doseRequest_def)
  have 2: "\<forall>m\<in>set (medications exStore2).
             \<not> (med_id m = req_medId (doseRequest 3 ''09:00'' ''taken'') \<and>
                med_user m = user_id (req_user (doseRequest 3 ''09:00'' ''taken'')) \<and> \<not> isDeleted m)"
    by (simp add: doseRequest_def exStore2_def exStore_def exMed_def exMed2_def exMed3_def)
  have 3: "duplicateLog (logs exStore2) (user_id (req_user (doseRequest 3 ''09:00'' ''taken'')))
             (req_medId (doseRequest 3 ''09:00'' ''taken''))
             (req_scheduledTime (doseRequest 3 ''09:00'' ''taken''))
             (907500000 - 10 * msPerMinute) = None"
    by (simp add: duplicateLog_def exStore2_def exStore_def)
  have 4: "classify (userZone (req_user (doseRequest 3 ''09:00'' ''taken''))) 907500000
             (req_scheduledTime (doseRequest 3 ''09:00'' ''taken''))
             (req_status (doseRequest 3 ''09:00'' ''taken'')) = Inr (''late'', 515)"
    by (simp add: classify_def doseRequest_def exUser_def userZone_def slot_defs)
  have 5: "validLog (newLog 907500000 (doseRequest 3 ''09:00'' ''taken'') ''late'' 515)"
    by (simp add: validLog_def newLog_def doseRequest_def)
  from taken_dose_needs_medication[OF 1 2, of _ 907500000 "''late''" 515] 3 4 5
  show ?thesis by blast
qed

text \<open>
  C4, counterexample. Medication 3 is soft-deleted. A missed report for it is answered with
  the new entry: the ledger gains the entry and the audit trail a \<open>DOSE_MISSED\<close> event. A
  skipped report is recorded as well.
\<close>

theorem deleted_medication_counterexample:
  "map isDeleted (medications exStore2) = [False, False, True]
   \<and> snd (logDose noFaults 907500000 (doseRequest 3 ''09:00'' ''missed'') exStore2)
       = Created (newLog 907500000 (doseRequest 3 ''09:00'' ''missed'') ''on-time'' 0)
   \<and> map (\<lambda>l. (log_medication l, log_status l))
        (logs (fst (logDose noFaults 907500000 (doseRequest 3 ''09:00'' ''missed'') exStore2)))
       = [(3, ''missed'')]
   \<and> map eventType (events (fst (logDose noFaults 907500000 (doseRequest 3 ''09:00'' ''missed'') exStore2)))
       = [''DOSE_MISSED'']
   \<and> map (\<lambda>l. (log_medication l, log_status l))
        (logs (fst (logDose noFaults 907500000 (doseRequest 3 ''09:00'' ''skipped'') exStore2)))
       = [(3, ''skipped'')]"
  by (simp add: dose_defs slot_defs userZone_def noFaults_def exStore2_def exStore_def exMed_def
      exMed2_def exMed3_def)


section \<open>What a pass synthesizes\<close>

lemma far_slot: "scheduledDateTime 330 907200000 ''99999999999:00'' = Inr Invalid"
  by code_simp

text \<open>
  C5, counterexample. The only medication of \<open>exStoreInactive\<close> is scheduled, not deleted
  and inactive. The pass sweeps it: it writes the missed entries of its two overdue slots,
  returns 2 and queues two guardian alerts. And the only slot of the medication in
  \<open>exStoreFar\<close> is written \<open>99999999999:00\<close>: its date-time lies beyond the range of a
  date and is invalid, so there is no instant for \<open>now\<close> to be past; the test of the pass
  fails all the same, and the pass writes a missed entry for the slot and returns 1.
\<close>

theorem sweep_counterexample:
  "map isActive (medications exStoreInactive) = [False]
   \<and> map (\<lambda>l. (log_medication l, log_scheduledTime l, log_status l))
        (logs (fst (runAutomatedReaper noFaults 907200000 exStoreInactive)))
      = [(1, ''08:00'', ''missed''), (1, ''14:00'', ''missed'')]
   \<and> snd (runAutomatedReaper noFaults 907200000 exStoreInactive) = Inr 2
   \<and> map missedTime (alertQueue (fst (runAutomatedReaper noFaults 907200000 exStoreInactive)))
      = [''08:00'', ''14:00'']
   \<and> scheduledDateTime 330 907200000 ''99999999999:00'' = Inr Invalid
   \<and> map (\<lambda>l. (log_medication l, log_scheduledTime l, log_status l))
        (logs (fst (runAutomatedReaper noFaults 907200000 exStoreFar)))
      = [(1, ''99999999999:00'', ''missed'')]
   \<and> snd (runAutomatedReaper noFaults 907200000 exStoreFar) = Inr 1"
proof -
  have a: "map isActive (medications exStoreInactive) = [False]
   \<and> map (\<lambda>l. (log_medication l, log_scheduledTime l, log_status l))
        (logs (fst (runAutomatedReaper noFaults 907200000 exStoreInactive)))
      = [(1, ''08:00'', ''missed''), (1, ''14:00'', ''missed'')]
   \<and> snd (runAutomatedReaper noFaults 907200000 exStoreInactive) = Inr 2
   \<and> map missedTime (alertQueue (fst (runAutomatedReaper noFaults 907200000 exStoreInactive)))
      = [''08:00'', ''14:00'']"
    by (simp add: pass_defs slot_defs exStoreInactive_def exStore_def exMed_def)
  have b: "map (\<lambda>l. (log_medication l, log_scheduledTime l, log_status l))
        (logs (fst (runAutomatedReaper noFaults 907200000 exStoreFar)))
      = [(1, ''99999999999:00'', ''missed'')]
   \<and> snd (runAutomatedReaper noFaults 907200000 exStoreFar) = Inr 1"
    by (simp add: pass_defs far_slot plusHours_def notAfter_def exStoreFar_def exStore_def exMed_def)
  from a b far_slot show ?thesis by blast
qed

text \<open>
  C5, as amended. In a pass that completes, for every medication the pass enumerates (not
  deleted, scheduled) whose owner resolves, and so for every active one, and for each of its
  slots: the pass synthesizes a missed entry (outcome missed, classification missed) of that
  medication and slot if and only if the slot is overdue, that is, the test of the pass on
  the slot's date-time plus two hours fails, and the ledger before the pass holds no entry of
  that medication and slot created on the owner's current local day. For a slot whose hour
  and minute read as a time of day (hour 0 to 23, minute 0 to 59, the clock in range) the slot
  is overdue exactly when \<open>now\<close> is strictly past the slot's instant of today plus two
  hours. No entry is synthesized for a deleted or non-scheduled medication. (Medication ids
  are unique in the store.)
\<close>

theorem sweep_synthesizes_iff:
  assumes "distinct (map med_id (medications st))"
      and "runAutomatedReaper flt now st = (st', Inr n)"
  shows "(\<forall>med\<in>set (sweptMeds st). \<forall>u. populateUser (users st) (med_user med) = Some u \<longrightarrow>
           (\<forall>s\<in>set (timings med).
              ((\<exists>l\<in>set (drop (length (logs st)) (logs st')).
                  log_medication l = med_id med \<and> log_scheduledTime l = s \<and>
                  log_status l = ''missed'' \<and> adherenceStatus l = ''missed'')
               = (overdue (userZone u) now s \<and>
                  (\<forall>l0\<in>set (logs st).
                     \<not> (log_medication l0 = med_id med \<and> log_scheduledTime l0 = s \<and>
                        localDay (userZone u) (createdAt l0) = localDay (userZone u) now))))
              \<and> (\<forall>h m. jsNumber (hourField s) = Finite h \<and> jsNumber (minuteField s) = Finite m \<and>
                    0 \<le> h \<and> h < 24 \<and> 0 \<le> m \<and> m < 60 \<and> clockInRange (userZone u) now \<longrightarrow>
                  ((\<exists>l\<in>set (drop (length (logs st)) (logs st')).
                      log_medication l = med_id med \<and> log_scheduledTime l = s \<and>
                      log_status l = ''missed'' \<and> adherenceStatus l = ''missed'')
                   = (startOfDay (userZone u) now + (h * 60 + m) * msPerMinute + twoHours < now \<and>
                      (\<forall>l0\<in>set (logs st).
                         \<not> (log_medication l0 = med_id med \<and> log_scheduledTime l0 = s \<and>
                            localDay (userZone u) (createdAt l0) = localDay (userZone u) now)))))))
     \<and> (\<forall>m\<in>set (medications st). isDeleted m \<or> medType m \<noteq> ''scheduled'' \<longrightarrow>
           (\<forall>l\<in>set (drop (length (logs st)) (logs st')). log_medication l \<noteq> med_id m))"
proof -
  from assms(2) have run: "reapMeds flt now (sweptMeds st) 0 st = (st', Inr n)"
    by (auto simp: runAutomatedReaper_def split: if_splits)
  from reapMeds_new[OF run] obtain new where new: "logs st' = logs st @ new"
    "\<forall>l\<in>set new. \<exists>med\<in>set (sweptMeds st). \<exists>u. populateUser (users st) (med_user med) = Some u \<and>
           (\<exists>s\<in>set (timings med). l = missedLog now u med s \<and> overdue (userZone u) now s \<and>
              existingLog (logs st) (med_id med) s
                (startOfDay (userZone u) now) (endOfDay (userZone u) now) = None)"
    by blast
  have dr: "drop (length (logs st)) (logs st') = new" using new(1) by simp
  have sw: "m \<in> set (medications st) \<and> \<not> isDeleted m \<and> medType m = ''scheduled''"
    if "m \<in> set (sweptMeds st)" for m
    using that by (simp add: sweptMeds_def)
  have part1: "(\<exists>l\<in>set new.
                  log_medication l = med_id med \<and> log_scheduledTime l = s \<and>
                  log_status l = ''missed'' \<and> adherenceStatus l = ''missed'')
              = (overdue (userZone u) now s \<and>
                 (\<forall>l0\<in>set (logs st).
                    \<not> (log_medication l0 = med_id med \<and> log_scheduledTime l0 = s \<and>
                       localDay (userZone u) (createdAt l0) = localDay (userZone u) now)))"
    if med: "med \<in> set (sweptMeds st)" and u: "populateUser (users st) (med_user med) = Some u"
      and s: "s \<in> set (timings med)" for med u s
  proof
    assume "\<exists>l\<in>set new. log_medication l = med_id med \<and> log_scheduledTime l = s \<and>
                  log_status l = ''missed'' \<and> adherenceStatus l = ''missed''"
    then obtain l where l: "l \<in> set new" "log_medication l = med_id med" "log_scheduledTime l = s"
      by blast
    from new(2) l(1) obtain med' u' s' where h: "med' \<in> set (sweptMeds st)"
      "populateUser (users st) (med_user med') = Some u'" "s' \<in> set (timings med')"
      "l = missedLog now u' med' s'" "overdue (userZone u') now s'"
      "existingLog (logs st) (med_id med') s'
                (startOfDay (userZone u') now) (endOfDay (userZone u') now) = None"
      by blast
    from h(4) l(2,3) have "med_id med' = med_id med" "s' = s" by (simp_all add: missedLog_def)
    with same_key_same_doc[OF assms(1), of med' med] sw[OF h(1)] sw[OF med]
    have "med' = med" by simp
    with h(2) u have "u' = u" by simp
    from h(5,6) \<open>med' = med\<close> \<open>u' = u\<close> \<open>s' = s\<close>
    show "overdue (userZone u) now s \<and>
                 (\<forall>l0\<in>set (logs st).
                    \<not> (log_medication l0 = med_id med \<and> log_scheduledTime l0 = s \<and>
                       localDay (userZone u) (createdAt l0) = localDay (userZone u) now))"
      by (simp add: existingLog_None_iff)
  next
    assume a: "overdue (userZone u) now s \<and>
                 (\<forall>l0\<in>set (logs st).
                    \<not> (log_medication l0 = med_id med \<and> log_scheduledTime l0 = s \<and>
                       localDay (userZone u) (createdAt l0) = localDay (userZone u) now))"
    from reapMeds_settled[OF run] med u s
    have "settled (userZone u) now (logs st') (med_id med) s" by blast
    with a have "existingLog (logs st') (med_id med) s
                (startOfDay (userZone u) now) (endOfDay (userZone u) now) \<noteq> None"
      by (simp add: settled_def)
    then obtain l where l: "l \<in> set (logs st')" "log_medication l = med_id med"
      "log_scheduledTime l = s" "localDay (userZone u) (createdAt l) = localDay (userZone u) now"
      unfolding existingLog_Some_iff by blast
    with a have "l \<notin> set (logs st)" by blast
    with l(1) new(1) have ln: "l \<in> set new" by simp
    from new(2) ln have "log_status l = ''missed'' \<and> adherenceStatus l = ''missed''"
      by (auto simp: missedLog_def)
    with ln l(2,3) show "\<exists>l\<in>set new. log_medication l = med_id med \<and> log_scheduledTime l = s \<and>
                  log_status l = ''missed'' \<and> adherenceStatus l = ''missed''"
      by blast
  qed
  have part1': "(\<exists>l\<in>set new.
                  log_medication l = med_id med \<and> log_scheduledTime l = s \<and>
                  log_status l = ''missed'' \<and> adherenceStatus l = ''missed'')
              = (startOfDay (userZone u) now + (h * 60 + m) * msPerMinute + twoHours < now \<and>
                 (\<forall>l0\<in>set (logs st).
                    \<not> (log_medication l0 = med_id med \<and> log_scheduledTime l0 = s \<and>
                       localDay (userZone u) (createdAt l0) = localDay (userZone u) now)))"
    if med: "med \<in> set (sweptMeds st)" and u: "populateUser (users st) (med_user med) = Some u"
      and s: "s \<in> set (timings med)"
      and rd: "jsNumber (hourField s) = Finite h" "jsNumber (minuteField s) = Finite m"
      and bd: "0 \<le> h" "h < 24" "0 \<le> m" "m < 60" and ck: "clockInRange (userZone u) now"
    for med u s h m
    unfolding part1[OF med u s] overdue_timeOfDay[OF rd bd ck] by (rule refl)
  have part2: "log_medication l \<noteq> med_id m"
    if m: "m \<in> set (medications st)" "isDeleted m \<or> medType m \<noteq> ''scheduled''"
      and l: "l \<in> set new" for m l
  proof
    assume eq: "log_medication l = med_id m"
    from new(2) l obtain med' u' s' where h: "med' \<in> set (sweptMeds st)"
      "l = missedLog now u' med' s'"
      by blast
    from h(2) eq have "med_id med' = med_id m" by (simp add: missedLog_def)
    with same_key_same_doc[OF assms(1), of med' m] sw[OF h(1)] m(1) have "med' = m" by simp
    with sw[OF h(1)] m(2) show False by simp
  qed
  show ?thesis unfolding dr using part1 part1' part2 by blast
qed

text \<open>
  C5, witness: the pass over \<open>exStore\<close> at 17:30 synthesizes the missed entry of the slot 08:00
  of medication 1, which is overdue and unresolved, and none for the slot 20:00, which is not
  overdue.
\<close>

theorem sweep_synthesizes_iff_witness:
  "(\<exists>l\<in>set (logs afterSweep). log_medication l = 1 \<and> log_scheduledTime l = ''08:00'' \<and>
        log_status l = ''missed'' \<and> adherenceStatus l = ''missed'')
   \<and> \<not> (\<exists>l\<in>set (logs afterSweep). log_medication l = 1 \<and> log_scheduledTime l = ''20:00'' \<and>
        log_status l = ''missed'' \<and> adherenceStatus l = ''missed'')"
proof -
  have a: "distinct (map med_id (medications exStore))"
    by (simp add: exStore_def)
  have "snd (runAutomatedReaper noFaults 907200000 exStore) = Inr 2"
    by (simp add: pass_defs slot_defs exStore_def exMed_def)
  then have run: "runAutomatedReaper noFaults 907200000 exStore = (afterSweep, Inr 2)"
    unfolding afterSweep_def by (metis prod.collapse)
  have m: "exMed \<in> set (sweptMeds exStore)"
    by (simp add: sweptMeds_def exStore_def exMed_def)
  have p: "populateUser (users exStore) (med_user exMed) = Some exUser"
    by (simp add: populateUser_def exStore_def exMed_def exUser_def)
  have s1: "''08:00'' \<in> set (timings exMed)" and s2: "''20:00'' \<in> set (timings exMed)"
    by (simp_all add: exMed_def)
  have c: "clockInRange (userZone exUser) 907200000"
    by (simp add: clockInRange_def userZone_def exUser_def msPerMinute_def msPerDay_def maxTime_def)
  have t1: "startOfDay (userZone exUser) 907200000 + (8 * 60 + 0) * msPerMinute + twoHours < 907200000"
    by (simp add: userZone_def exUser_def slot_defs)
  have t2: "\<not> startOfDay (userZone exUser) 907200000 + (20 * 60 + 0) * msPerMinute + twoHours < 907200000"
    by (simp add: userZone_def exUser_def slot_defs)
  have e: "logs exStore = []" "med_id exMed = 1"
    by (simp_all add: exStore_def exMed_def)
  from sweep_synthesizes_iff[OF a run] m p s1
  have "jsNumber (hourField ''08:00'') = Finite 8 \<and> jsNumber (minuteField ''08:00'') = Finite 0 \<and>
        (0 :: int) \<le> 8 \<and> (8 :: int) < 24 \<and> (0 :: int) \<le> 0 \<and> (0 :: int) < 60 \<and>
        clockInRange (userZone exUser) 907200000 \<longrightarrow>
          ((\<exists>l\<in>set (drop (length (logs exStore)) (logs afterSweep)).
              log_medication l = med_id exMed \<and> log_scheduledTime l = ''08:00'' \<and>
              log_status l = ''missed'' \<and> adherenceStatus l = ''missed'')
           = (startOfDay (userZone exUser) 907200000 + (8 * 60 + 0) * msPerMinute + twoHours < 907200000 \<and>
              (\<forall>l0\<in>set (logs exStore).
                 \<not> (log_medication l0 = med_id exMed \<and> log_scheduledTime l0 = ''08:00'' \<and>
                    localDay (userZone exUser) (createdAt l0) = localDay (userZone exUser) 907200000))))"
    by blast
  with c t1
  have i1: "\<exists>l\<in>set (drop (length (logs exStore)) (logs afterSweep)).
                      log_medication l = med_id exMed \<and> log_scheduledTime l = ''08:00'' \<and>
                      log_status l = ''missed'' \<and> adherenceStatus l = ''missed''"
    unfolding e by (simp add: example_slots)
  from sweep_synthesizes_iff[OF a run] m p s2
  have "jsNumber (hourField ''20:00'') = Finite 20 \<and> jsNumber (minuteField ''20:00'') = Finite 0 \<and>
        (0 :: int) \<le> 20 \<and> (20 :: int) < 24 \<and> (0 :: int) \<le> 0 \<and> (0 :: int) < 60 \<and>
        clockInRange (userZone exUser) 907200000 \<longrightarrow>
          ((\<exists>l\<in>set (drop (length (logs exStore)) (logs afterSweep)).
              log_medication l = med_id exMed \<and> log_scheduledTime l = ''20:00'' \<and>
              log_status l = ''missed'' \<and> adherenceStatus l = ''missed'')
           = (startOfDay (userZone exUser) 907200000 + (20 * 60 + 0) * msPerMinute + twoHours < 907200000 \<and>
              (\<forall>l0\<in>set (logs exStore).
                 \<not> (log_medication l0 = med_id exMed \<and> log_scheduledTime l0 = ''20:00'' \<and>
                    localDay (userZone exUser) (createdAt l0) = localDay (userZone exUser) 907200000))))"
    by blast
  with c t2
  have i2: "\<not> (\<exists>l\<in>set (drop (length (logs exStore)) (logs afterSweep)).
                      log_medication l = med_id exMed \<and> log_scheduledTime l = ''20:00'' \<and>
                      log_status l = ''missed'' \<and> adherenceStatus l = ''missed'')"
    unfolding e by (simp add: example_slots)
  from i1 i2 show ?thesis unfolding e by simp
qed


end
